theory Spec2Isabelle
  imports Main "HOL-Library.AList"
begin

section \<open>Data model\<close>

text \<open>
  The listing service returns SDK instance descriptions whose fields are all Go pointers
  (\<^verbatim>\<open>*string\<close>, \<^verbatim>\<open>*int64\<close>). A pointer is an option: \<open>None\<close> is \<^verbatim>\<open>nil\<close>.
  Only the fields the read handler touches are kept. No arithmetic is done on the numbers,
  so they are plain integers.
\<close>

record DBInstance =
  InstanceId :: "string option"
  Name :: "string option"
  ProjectId :: "int option"
  Storage :: "int option"
  Memory :: "int option"
  Zone :: "string option"
  CreateTime :: "string option"
  UniqVpcId :: "string option"
  UniqSubnetId :: "string option"
  Version :: "string option"
  Vip :: "string option"
  Vport :: "int option"
  UsedStorage :: "int option"
  Status :: "int option"
  Cpu :: "int option"
  PayMode :: "int option"

text \<open>
  An output element is a \<^verbatim>\<open>map[string]interface{}\<close>. The handler stores four kinds of
  value in it: a string pointer, an integer pointer, a string constant and the tag map
  (a \<^verbatim>\<open>map[string]string\<close>). The map is an association list with one entry per key,
  written with \<open>AList.update\<close> and read with \<open>map_of\<close>.
\<close>

type_synonym tags = "(string \<times> string) list"

datatype ival =
    StringPtr "string option"
  | Int64Ptr "int option"
  | StringVal string
  | TagMap tags

type_synonym listItem = "(string \<times> ival) list"

text \<open>A Go \<^verbatim>\<open>error\<close> value is opaque; it is identified by its message.\<close>

datatype goerror = GoError string

text \<open>
  The handler either returns an \<^verbatim>\<open>error\<close> (\<open>None\<close> is \<^verbatim>\<open>nil\<close>) or panics on a
  nil dereference.
\<close>

datatype outcome = Panicked | Returned "goerror option"

text \<open>
  Every effect of the handler on the outside is logged as an event, in the order it happens:
  the listing call with its five arguments after the context, a tag call with its four
  arguments after the context, \<^verbatim>\<open>d.SetId\<close>, \<^verbatim>\<open>d.Set("instance_list", _)\<close> and
  \<^verbatim>\<open>writeToFile\<close>. Logging (\<^verbatim>\<open>logElapsed\<close>, \<^verbatim>\<open>log.Printf\<close>) is left out.
\<close>

datatype event =
    CallDescribeSqlserverInstances string int string string int
  | CallDescribeResourceTags string string string string
  | CallSetId string
  | CallSet "listItem list"
  | CallWriteToFile string "listItem list"

text \<open>
  The collaborators are not part of the file and are parameters of the model. Each one
  that talks to the outside answers as a function of the events so far and of its
  arguments, so that a service may answer the same question differently at different
  moments. \<open>DataResourceIdsHash\<close> is a pure helper; \<open>Region\<close> is the field
  \<^verbatim>\<open>tcClient.Region\<close>; the two pay type names are package constants.
\<close>

record services =
  DescribeSqlserverInstances ::
    "event list \<Rightarrow> string \<Rightarrow> int \<Rightarrow> string \<Rightarrow> string \<Rightarrow> int \<Rightarrow> goerror + DBInstance list"
  DescribeResourceTags ::
    "event list \<Rightarrow> string \<Rightarrow> string \<Rightarrow> string \<Rightarrow> string \<Rightarrow> goerror + tags"
  Region :: string
  DataResourceIdsHash :: "string list \<Rightarrow> string"
  SetInstanceList :: "event list \<Rightarrow> listItem list \<Rightarrow> goerror option"
  writeToFile :: "event list \<Rightarrow> string \<Rightarrow> listItem list \<Rightarrow> goerror option"
  COMMON_PAYTYPE_PREPAID :: string
  COMMON_PAYTYPE_POSTPAID :: string

text \<open>
  The resource data \<^verbatim>\<open>d\<close>: the five arguments of the schema as configured (\<open>None\<close>
  when the configuration does not mention the argument; the schema fixes their types),
  the resource ID and the computed attribute \<^verbatim>\<open>instance_list\<close>.
\<close>

record ResourceData =
  arg_id :: "string option"
  arg_project_id :: "int option"
  arg_vpc_id :: "string option"
  arg_subnet_id :: "string option"
  arg_result_output_file :: "string option"
  resource_id :: "string option"
  instance_list :: "listItem list option"

text \<open>
  The two accessors of the plugin SDK (\<^verbatim>\<open>helper/schema\<close>) the handler uses, with the
  behaviour the SDK documents. \<^verbatim>\<open>d.Get\<close> gives the zero value of the type for an
  argument that is not set. \<^verbatim>\<open>d.GetOk\<close> "returns the data for the given key and
  whether or not the key has been set to a non-zero value": its flag is false for an
  argument that is absent and also for one set to \<^verbatim>\<open>""\<close> or \<^verbatim>\<open>0\<close> (the SDK
  compares the value with the zero value of the schema type). The type assertions
  \<^verbatim>\<open>.(string)\<close> and \<^verbatim>\<open>.(int)\<close> cannot fail: the schema fixes the types.
\<close>

definition Get_string :: "string option \<Rightarrow> string" where
  "Get_string a = (case a of None \<Rightarrow> [] | Some s \<Rightarrow> s)"

definition GetOk_string :: "string option \<Rightarrow> string \<times> bool" where
  "GetOk_string a = (case a of None \<Rightarrow> ([], False) | Some s \<Rightarrow> (s, s \<noteq> []))"

definition GetOk_int :: "int option \<Rightarrow> int \<times> bool" where
  "GetOk_int a = (case a of None \<Rightarrow> (0, False) | Some n \<Rightarrow> (n, n \<noteq> 0))"

section \<open>The read handler\<close>

text \<open>
  The fifteen assignments at the head of the loop body (lines 195 to 210), in the order of
  the source.
\<close>

definition copy_fields :: "DBInstance \<Rightarrow> listItem" where
  "copy_fields v =
     AList.update ''cpu'' (Int64Ptr (Cpu v))
    (AList.update ''status'' (Int64Ptr (Status v))
    (AList.update ''used_storage'' (Int64Ptr (UsedStorage v))
    (AList.update ''vport'' (Int64Ptr (Vport v))
    (AList.update ''vip'' (StringPtr (Vip v))
    (AList.update ''engine_version'' (StringPtr (Version v))
    (AList.update ''subnet_id'' (StringPtr (UniqSubnetId v))
    (AList.update ''vpc_id'' (StringPtr (UniqVpcId v))
    (AList.update ''create_time'' (StringPtr (CreateTime v))
    (AList.update ''availability_zone'' (StringPtr (Zone v))
    (AList.update ''memory'' (Int64Ptr (Memory v))
    (AList.update ''storage'' (Int64Ptr (Storage v))
    (AList.update ''project_id'' (Int64Ptr (ProjectId v))
    (AList.update ''name'' (StringPtr (Name v))
    (AList.update ''id'' (StringPtr (InstanceId v)) []))))))))))))))"

text \<open>
  The loop of lines 194 to 225, with its three variables: the list built so far, the IDs
  collected so far and the event log. \<^verbatim>\<open>*v.PayMode\<close> is evaluated first, then
  \<^verbatim>\<open>*v.InstanceId\<close> as an argument of the tag call; either panics on \<^verbatim>\<open>nil\<close>.
  An error of the tag call leaves the loop and the handler at once.
\<close>

fun flatten_loop ::
  "services \<Rightarrow> DBInstance list \<Rightarrow> listItem list \<Rightarrow> string list \<Rightarrow> event list
     \<Rightarrow> (outcome + listItem list \<times> string list) \<times> event list" where
  "flatten_loop sv [] lst ids tr = (Inr (lst, ids), tr)"
| "flatten_loop sv (v # vs) lst ids tr =
     (case PayMode v of
        None \<Rightarrow> (Inl Panicked, tr)
      | Some pm \<Rightarrow>
          let listItem = AList.update ''charge_type''
                (StringVal (if pm = 1 then COMMON_PAYTYPE_PREPAID sv
                            else COMMON_PAYTYPE_POSTPAID sv))
                (copy_fields v)
          in (case InstanceId v of
                None \<Rightarrow> (Inl Panicked, tr)
              | Some iid \<Rightarrow>
                  let tr' = tr @ [CallDescribeResourceTags ''sqlserver'' ''instance''
                                    (Region sv) iid]
                  in (case DescribeResourceTags sv tr ''sqlserver'' ''instance''
                             (Region sv) iid of
                        Inl err \<Rightarrow> (Inl (Returned (Some err)), tr')
                      | Inr tagList \<Rightarrow>
                          flatten_loop sv vs
                            (lst @ [AList.update ''tags'' (TagMap tagList) listItem])
                            (ids @ [iid]) tr')))"

text \<open>
  The handler. It returns what the Go function returns (or that it panicked), the resource
  data as the handler leaves it and the log of its effects.
\<close>

definition dataSourceTencentCloudSqlserverBasicInstanceRead ::
  "services \<Rightarrow> ResourceData \<Rightarrow> outcome \<times> ResourceData \<times> event list" where
  "dataSourceTencentCloudSqlserverBasicInstanceRead sv d =
     (let id = Get_string (arg_id d);
          projectId = (case GetOk_int (arg_project_id d) of
                         (v, ok) \<Rightarrow> if ok then v else - 1);
          vpcId = (case GetOk_string (arg_vpc_id d) of
                     (v, ok) \<Rightarrow> if ok then v else []);
          subnetId = (case GetOk_string (arg_subnet_id d) of
                        (v, ok) \<Rightarrow> if ok then v else []);
          tr1 = [CallDescribeSqlserverInstances id projectId vpcId subnetId 1]
      in case DescribeSqlserverInstances sv [] id projectId vpcId subnetId 1 of
           Inl err \<Rightarrow> (Returned (Some err), d, tr1)
         | Inr instanceList \<Rightarrow>
             (case flatten_loop sv instanceList [] [] tr1 of
                (Inl out, tr2) \<Rightarrow> (out, d, tr2)
              | (Inr (lst, ids), tr2) \<Rightarrow>
                  let h = DataResourceIdsHash sv ids;
                      d1 = d\<lparr>resource_id := Some h\<rparr>;
                      tr3 = tr2 @ [CallSetId h];
                      tr4 = tr3 @ [CallSet lst]
                  in (case SetInstanceList sv tr3 lst of
                        Some e \<Rightarrow> (Returned (Some e), d1, tr4)
                      | None \<Rightarrow>
                          let d2 = d1\<lparr>instance_list := Some lst\<rparr>
                          in (case GetOk_string (arg_result_output_file d2) of
                                (output, ok) \<Rightarrow>
                                  if ok \<and> output \<noteq> []
                                  then (Returned (writeToFile sv tr4 output lst), d2,
                                        tr4 @ [CallWriteToFile output lst])
                                  else (Returned None, d2, tr4)))))"

section \<open>Notions used to state the properties\<close>

text \<open>
  Shorthands for the terms the statements repeat: the tag call the loop makes for an
  instance ID and the answer it gets at a given moment, the element the loop builds from an
  instance, its pay mode and its tags, and the arguments and the answer of the listing call.
\<close>

abbreviation tag_call :: "services \<Rightarrow> string \<Rightarrow> event" where
  "tag_call sv iid \<equiv> CallDescribeResourceTags ''sqlserver'' ''instance'' (Region sv) iid"

abbreviation tag_answer :: "services \<Rightarrow> event list \<Rightarrow> string \<Rightarrow> goerror + tags" where
  "tag_answer sv h iid \<equiv> DescribeResourceTags sv h ''sqlserver'' ''instance'' (Region sv) iid"

abbreviation item_of :: "services \<Rightarrow> DBInstance \<Rightarrow> int \<Rightarrow> tags \<Rightarrow> listItem" where
  "item_of sv v pm tg \<equiv>
     AList.update ''tags'' (TagMap tg)
       (AList.update ''charge_type''
          (StringVal (if pm = 1 then COMMON_PAYTYPE_PREPAID sv else COMMON_PAYTYPE_POSTPAID sv))
          (copy_fields v))"

abbreviation filter_id :: "ResourceData \<Rightarrow> string" where
  "filter_id d \<equiv> (case arg_id d of None \<Rightarrow> [] | Some s \<Rightarrow> s)"

abbreviation filter_project_id :: "ResourceData \<Rightarrow> int" where
  "filter_project_id d \<equiv> (case arg_project_id d of None \<Rightarrow> - 1 | Some n \<Rightarrow> if n = 0 then - 1 else n)"

abbreviation filter_vpc_id :: "ResourceData \<Rightarrow> string" where
  "filter_vpc_id d \<equiv> (case arg_vpc_id d of None \<Rightarrow> [] | Some s \<Rightarrow> s)"

abbreviation filter_subnet_id :: "ResourceData \<Rightarrow> string" where
  "filter_subnet_id d \<equiv> (case arg_subnet_id d of None \<Rightarrow> [] | Some s \<Rightarrow> s)"

abbreviation listing_call :: "ResourceData \<Rightarrow> event" where
  "listing_call d \<equiv> CallDescribeSqlserverInstances (filter_id d) (filter_project_id d)
     (filter_vpc_id d) (filter_subnet_id d) 1"

abbreviation listing_answer :: "services \<Rightarrow> ResourceData \<Rightarrow> goerror + DBInstance list" where
  "listing_answer sv d \<equiv> DescribeSqlserverInstances sv [] (filter_id d) (filter_project_id d)
     (filter_vpc_id d) (filter_subnet_id d) 1"

abbreviation hash_of :: "services \<Rightarrow> string list \<Rightarrow> string" where
  "hash_of sv ids \<equiv> DataResourceIdsHash sv ids"

text \<open>
  What the listing service answered in a run, read off the log: the answer to the call
  logged first, made before any other event.
\<close>

fun listing_result :: "services \<Rightarrow> event list \<Rightarrow> (goerror + DBInstance list) option" where
  "listing_result sv (CallDescribeSqlserverInstances i p v s t # _) =
     Some (DescribeSqlserverInstances sv [] i p v s t)"
| "listing_result sv _ = None"

text \<open>The events that are calls of the tag service.\<close>

fun is_tag_call :: "event \<Rightarrow> bool" where
  "is_tag_call (CallDescribeResourceTags a b c i) = True"
| "is_tag_call _ = False"

section \<open>A sample run\<close>

text \<open>
  Two instances, one prepaid and one postpaid, as the listing service could return them,
  collaborators that answer as told, and resource data that configures a VPC filter, a
  project ID and an output file.
\<close>

definition sample_instance :: "string \<Rightarrow> int option \<Rightarrow> DBInstance" where
  "sample_instance iid pm =
     \<lparr>InstanceId = Some iid, Name = Some ''tf_sqlserver_basic_instance'', ProjectId = Some 0,
      Storage = Some 10, Memory = Some 2, Zone = Some ''ap-guangzhou-3'',
      CreateTime = Some ''2020-06-01 10:00:00'', UniqVpcId = Some ''vpc-26w7r56z'',
      UniqSubnetId = Some ''subnet-lvlr6eeu'', Version = Some ''2008R2'',
      Vip = Some ''10.0.0.5'', Vport = Some 1433, UsedStorage = Some 0, Status = Some 2,
      Cpu = Some 1, PayMode = pm\<rparr>"

definition sample_list :: "DBInstance list" where
  "sample_list = [sample_instance ''mssql-a'' (Some 1), sample_instance ''mssql-b'' (Some 0)]"

definition sample_services ::
  "(goerror + DBInstance list) \<Rightarrow> (string \<Rightarrow> goerror + tags) \<Rightarrow> goerror option \<Rightarrow> goerror option
     \<Rightarrow> services" where
  "sample_services la ta st wr =
     \<lparr>DescribeSqlserverInstances = (\<lambda>h i p v s t. la),
      DescribeResourceTags = (\<lambda>h a b c iid. ta iid),
      Region = ''ap-guangzhou'',
      DataResourceIdsHash = concat,
      SetInstanceList = (\<lambda>h l. st),
      writeToFile = (\<lambda>h p l. wr),
      COMMON_PAYTYPE_PREPAID = ''PREPAID'',
      COMMON_PAYTYPE_POSTPAID = ''POSTPAID_BY_HOUR''\<rparr>"

definition sample_data :: "int option \<Rightarrow> string option \<Rightarrow> ResourceData" where
  "sample_data pid file =
     \<lparr>arg_id = None, arg_project_id = pid, arg_vpc_id = Some ''vpc-26w7r56z'',
      arg_subnet_id = None, arg_result_output_file = file, resource_id = None,
      instance_list = None\<rparr>"

definition sample_tags :: "string \<Rightarrow> goerror + tags" where
  "sample_tags iid = (if iid = ''mssql-b'' then Inr [] else Inr [(''test'', ''test'')])"

definition failing_tags :: "string \<Rightarrow> goerror + tags" where
  "failing_tags iid = (if iid = ''mssql-b'' then Inl (GoError ''tag api down'')
                       else Inr [(''test'', ''test'')])"

definition sample_item :: "string \<Rightarrow> string \<Rightarrow> tags \<Rightarrow> listItem" where
  "sample_item iid ct tg =
     [(''id'', StringPtr (Some iid)),
      (''name'', StringPtr (Some ''tf_sqlserver_basic_instance'')),
      (''project_id'', Int64Ptr (Some 0)),
      (''storage'', Int64Ptr (Some 10)),
      (''memory'', Int64Ptr (Some 2)),
      (''availability_zone'', StringPtr (Some ''ap-guangzhou-3'')),
      (''create_time'', StringPtr (Some ''2020-06-01 10:00:00'')),
      (''vpc_id'', StringPtr (Some ''vpc-26w7r56z'')),
      (''subnet_id'', StringPtr (Some ''subnet-lvlr6eeu'')),
      (''engine_version'', StringPtr (Some ''2008R2'')),
      (''vip'', StringPtr (Some ''10.0.0.5'')),
      (''vport'', Int64Ptr (Some 1433)),
      (''used_storage'', Int64Ptr (Some 0)),
      (''status'', Int64Ptr (Some 2)),
      (''cpu'', Int64Ptr (Some 1)),
      (''charge_type'', StringVal ct),
      (''tags'', TagMap tg)]"

definition sample_items :: "listItem list" where
  "sample_items = [sample_item ''mssql-a'' ''PREPAID'' [(''test'', ''test'')],
                   sample_item ''mssql-b'' ''POSTPAID_BY_HOUR'' []]"

section \<open>The loop\<close>

lemma flatten_loop_trace:
  "flatten_loop sv vs lst ids tr = (r, tr') \<Longrightarrow> \<exists>iids. tr' = tr @ map (tag_call sv) iids"
proof (induction vs arbitrary: lst ids tr)
  case Nil
  then show ?case by simp
next
  case (Cons v vs)
  show ?case
  proof (cases "PayMode v")
    case None
    with Cons.prems show ?thesis by simp
  next
    case pm: (Some pm)
    show ?thesis
    proof (cases "InstanceId v")
      case None
      with Cons.prems pm show ?thesis by simp
    next
      case iid: (Some iid)
      show ?thesis
      proof (cases "tag_answer sv tr iid")
        case (Inl e)
        with Cons.prems pm iid have "tr' = tr @ map (tag_call sv) [iid]" by simp
        then show ?thesis by blast
      next
        case (Inr tg)
        with Cons.prems pm iid
        have "flatten_loop sv vs (lst @ [item_of sv v pm tg]) (ids @ [iid]) (tr @ [tag_call sv iid]) = (r, tr')"
          by simp
        from Cons.IH [OF this] obtain iids where "tr' = (tr @ [tag_call sv iid]) @ map (tag_call sv) iids"
          by blast
        then have "tr' = tr @ map (tag_call sv) (iid # iids)" by simp
        then show ?thesis by blast
      qed
    qed
  qed
qed

lemma flatten_loop_Inr:
  "flatten_loop sv vs lst ids tr = (Inr (lst', ids'), tr') \<Longrightarrow>
   \<exists>iids pms tgs. length iids = length vs \<and> length pms = length vs \<and> length tgs = length vs \<and>
      map InstanceId vs = map Some iids \<and> map PayMode vs = map Some pms \<and>
      ids' = ids @ iids \<and> tr' = tr @ map (tag_call sv) iids \<and>
      lst' = lst @ map (\<lambda>(v, pm, tg). item_of sv v pm tg) (zip vs (zip pms tgs)) \<and>
      (\<forall>i<length vs. tag_answer sv (tr @ map (tag_call sv) (take i iids)) (iids ! i) = Inr (tgs ! i))"
proof (induction vs arbitrary: lst ids tr)
  case Nil
  then show ?case by simp
next
  case (Cons v vs)
  from Cons.prems obtain pm where pm: "PayMode v = Some pm"
    by (cases "PayMode v") auto
  from Cons.prems pm obtain iid where iid: "InstanceId v = Some iid"
    by (cases "InstanceId v") auto
  from Cons.prems pm iid obtain tg where tg: "tag_answer sv tr iid = Inr tg"
    by (cases "tag_answer sv tr iid") auto
  from Cons.prems pm iid tg
  have rec: "flatten_loop sv vs (lst @ [item_of sv v pm tg]) (ids @ [iid]) (tr @ [tag_call sv iid])
               = (Inr (lst', ids'), tr')"
    by simp
  from Cons.IH [OF rec] obtain iids pms tgs where
    len: "length iids = length vs" "length pms = length vs" "length tgs = length vs" and
    m: "map InstanceId vs = map Some iids" "map PayMode vs = map Some pms" and
    ids': "ids' = (ids @ [iid]) @ iids" and
    tr': "tr' = (tr @ [tag_call sv iid]) @ map (tag_call sv) iids" and
    lst': "lst' = (lst @ [item_of sv v pm tg]) @ map (\<lambda>(v, pm, tg). item_of sv v pm tg) (zip vs (zip pms tgs))" and
    ans: "\<forall>i<length vs. tag_answer sv ((tr @ [tag_call sv iid]) @ map (tag_call sv) (take i iids)) (iids ! i) = Inr (tgs ! i)"
    by blast
  have ans': "\<forall>i<length (v # vs). tag_answer sv (tr @ map (tag_call sv) (take i (iid # iids))) ((iid # iids) ! i) = Inr ((tg # tgs) ! i)"
  proof (intro allI impI)
    fix i assume "i < length (v # vs)"
    then show "tag_answer sv (tr @ map (tag_call sv) (take i (iid # iids))) ((iid # iids) ! i) = Inr ((tg # tgs) ! i)"
      using tg ans by (cases i) auto
  qed
  show ?case
    apply (rule exI [of _ "iid # iids"])
    apply (rule exI [of _ "pm # pms"])
    apply (rule exI [of _ "tg # tgs"])
    using len m ids' tr' lst' ans' pm iid by simp
qed

lemma flatten_loop_answer_Inl:
  "flatten_loop sv vs lst ids tr = (r, tr') \<Longrightarrow> length tr \<le> k \<Longrightarrow> k < length tr' \<Longrightarrow>
   tr' ! k = CallDescribeResourceTags a b c i \<Longrightarrow>
   DescribeResourceTags sv (take k tr') a b c i = Inl e \<Longrightarrow>
   r = Inl (Returned (Some e))"
proof (induction vs arbitrary: lst ids tr)
  case Nil
  then show ?case by simp
next
  case (Cons v vs)
  from Cons.prems(1,2,3) obtain pm where pm: "PayMode v = Some pm"
    by (cases "PayMode v") auto
  from Cons.prems(1,2,3) pm obtain iid where iid: "InstanceId v = Some iid"
    by (cases "InstanceId v") auto
  show ?case
  proof (cases "tag_answer sv tr iid")
    case (Inl e0)
    with Cons.prems(1) pm iid have r: "r = Inl (Returned (Some e0))" and tr': "tr' = tr @ [tag_call sv iid]"
      by simp_all
    from tr' Cons.prems(2,3) have k: "k = length tr" by simp
    with tr' Cons.prems(4,5) Inl have "e = e0" by simp
    with r show ?thesis by simp
  next
    case (Inr tg)
    with Cons.prems(1) pm iid
    have rec: "flatten_loop sv vs (lst @ [item_of sv v pm tg]) (ids @ [iid]) (tr @ [tag_call sv iid]) = (r, tr')"
      by simp
    from flatten_loop_trace [OF rec] obtain iids where
      tr': "tr' = (tr @ [tag_call sv iid]) @ map (tag_call sv) iids" by blast
    show ?thesis
    proof (cases "k = length tr")
      case True
      with tr' have "tr' ! k = tag_call sv iid" and "take k tr' = tr" by (simp_all add: nth_append)
      with Cons.prems(4,5) Inr show ?thesis by simp
    next
      case False
      with Cons.prems(2) have "length (tr @ [tag_call sv iid]) \<le> k" by simp
      from Cons.IH [OF rec this Cons.prems(3,4,5)] show ?thesis .
    qed
  qed
qed

lemma flatten_loop_Inl:
  "flatten_loop sv vs lst ids tr = (Inl out, tr') \<Longrightarrow> out = Panicked \<or> (\<exists>e. out = Returned (Some e))"
  by (induction vs arbitrary: lst ids tr) (auto simp: Let_def split: option.splits sum.splits)

lemma flatten_loop_Panicked:
  "flatten_loop sv vs lst ids tr = (Inl Panicked, tr') \<Longrightarrow>
   \<exists>v \<in> set vs. PayMode v = None \<or> InstanceId v = None"
  by (induction vs arbitrary: lst ids tr) (auto simp: Let_def split: option.splits sum.splits)

lemma flatten_loop_total:
  "\<forall>v \<in> set vs. PayMode v \<noteq> None \<and> InstanceId v \<noteq> None \<Longrightarrow>
   \<forall>h iid. \<exists>tg. tag_answer sv h iid = Inr tg \<Longrightarrow>
   \<exists>lst' ids' tr'. flatten_loop sv vs lst ids tr = (Inr (lst', ids'), tr')"
proof (induction vs arbitrary: lst ids tr)
  case Nil
  then show ?case by simp
next
  case (Cons v vs)
  from Cons.prems(1) obtain pm iid where v: "PayMode v = Some pm" "InstanceId v = Some iid"
    by auto
  from Cons.prems(2) obtain tg where tg: "tag_answer sv tr iid = Inr tg" by blast
  from Cons.prems(1) have "\<forall>v \<in> set vs. PayMode v \<noteq> None \<and> InstanceId v \<noteq> None" by simp
  from Cons.IH [OF this Cons.prems(2)] v tg show ?case by simp
qed

section \<open>The handler, path by path\<close>

text \<open>
  What \<^verbatim>\<open>d.GetOk\<close> and the defaults make of each optional filter, the handler
  with its bindings unfolded, and the five ways a run can end: the listing call fails, the
  loop is left early (a tag error or a panic), \<^verbatim>\<open>d.Set\<close> fails, the run ends
  without an output file, or the file is written.
\<close>

lemma GetOk_int_filter:
  "(case GetOk_int a of (v, ok) \<Rightarrow> if ok then v else - 1) =
   (case a of None \<Rightarrow> - 1 | Some n \<Rightarrow> if n = 0 then - 1 else n)"
  by (simp add: GetOk_int_def split: option.splits)

lemma GetOk_string_filter:
  "(case GetOk_string a of (v, ok) \<Rightarrow> if ok then v else []) =
   (case a of None \<Rightarrow> [] | Some s \<Rightarrow> s)"
  by (simp add: GetOk_string_def split: option.splits)

lemma read_unfold:
  "dataSourceTencentCloudSqlserverBasicInstanceRead sv d =
     (case listing_answer sv d of
        Inl err \<Rightarrow> (Returned (Some err), d, [listing_call d])
      | Inr vs \<Rightarrow>
          (case flatten_loop sv vs [] [] [listing_call d] of
             (Inl out, tr2) \<Rightarrow> (out, d, tr2)
           | (Inr (lst, ids), tr2) \<Rightarrow>
               (case SetInstanceList sv (tr2 @ [CallSetId (DataResourceIdsHash sv ids)]) lst of
                  Some e \<Rightarrow> (Returned (Some e), d\<lparr>resource_id := Some (DataResourceIdsHash sv ids)\<rparr>,
                              tr2 @ [CallSetId (DataResourceIdsHash sv ids), CallSet lst])
                | None \<Rightarrow>
                    (case arg_result_output_file d of
                       None \<Rightarrow> (Returned None,
                          d\<lparr>resource_id := Some (DataResourceIdsHash sv ids), instance_list := Some lst\<rparr>,
                          tr2 @ [CallSetId (DataResourceIdsHash sv ids), CallSet lst])
                     | Some p \<Rightarrow>
                         if p = [] then (Returned None,
                          d\<lparr>resource_id := Some (DataResourceIdsHash sv ids), instance_list := Some lst\<rparr>,
                          tr2 @ [CallSetId (DataResourceIdsHash sv ids), CallSet lst])
                         else (Returned (writeToFile sv
                                 (tr2 @ [CallSetId (DataResourceIdsHash sv ids), CallSet lst]) p lst),
                          d\<lparr>resource_id := Some (DataResourceIdsHash sv ids), instance_list := Some lst\<rparr>,
                          tr2 @ [CallSetId (DataResourceIdsHash sv ids), CallSet lst,
                                 CallWriteToFile p lst])))))"
  unfolding dataSourceTencentCloudSqlserverBasicInstanceRead_def Let_def
    GetOk_int_filter GetOk_string_filter Get_string_def
  by (simp add: GetOk_string_def split: sum.splits prod.splits option.splits)

lemma read_cases [consumes 1, case_names listing_error loop_left set_error no_file file_written]:
  assumes run: "dataSourceTencentCloudSqlserverBasicInstanceRead sv d = (out, d', tr)"
  obtains
    e where "listing_answer sv d = Inl e" "out = Returned (Some e)" "d' = d"
      "tr = [listing_call d]"
  | vs where "listing_answer sv d = Inr vs"
      "flatten_loop sv vs [] [] [listing_call d] = (Inl out, tr)" "d' = d"
  | vs lst ids tr2 e where "listing_answer sv d = Inr vs"
      "flatten_loop sv vs [] [] [listing_call d] = (Inr (lst, ids), tr2)"
      "SetInstanceList sv (tr2 @ [CallSetId (hash_of sv ids)]) lst = Some e"
      "out = Returned (Some e)" "d' = d\<lparr>resource_id := Some (hash_of sv ids)\<rparr>"
      "tr = tr2 @ [CallSetId (hash_of sv ids), CallSet lst]"
  | vs lst ids tr2 where "listing_answer sv d = Inr vs"
      "flatten_loop sv vs [] [] [listing_call d] = (Inr (lst, ids), tr2)"
      "SetInstanceList sv (tr2 @ [CallSetId (hash_of sv ids)]) lst = None"
      "arg_result_output_file d = None \<or> arg_result_output_file d = Some []"
      "out = Returned None"
      "d' = d\<lparr>resource_id := Some (hash_of sv ids), instance_list := Some lst\<rparr>"
      "tr = tr2 @ [CallSetId (hash_of sv ids), CallSet lst]"
  | vs lst ids tr2 p where "listing_answer sv d = Inr vs"
      "flatten_loop sv vs [] [] [listing_call d] = (Inr (lst, ids), tr2)"
      "SetInstanceList sv (tr2 @ [CallSetId (hash_of sv ids)]) lst = None"
      "arg_result_output_file d = Some p" "p \<noteq> []"
      "out = Returned (writeToFile sv (tr2 @ [CallSetId (hash_of sv ids), CallSet lst]) p lst)"
      "d' = d\<lparr>resource_id := Some (hash_of sv ids), instance_list := Some lst\<rparr>"
      "tr = tr2 @ [CallSetId (hash_of sv ids), CallSet lst, CallWriteToFile p lst]"
proof (cases "listing_answer sv d")
  case (Inl e)
  with run have "out = Returned (Some e)" "d' = d" "tr = [listing_call d]"
    by (auto simp add: read_unfold)
  with Inl show ?thesis by (rule that(1))
next
  case vs: (Inr vs)
  obtain r tr2 where fl: "flatten_loop sv vs [] [] [listing_call d] = (r, tr2)"
    by (cases "flatten_loop sv vs [] [] [listing_call d]")
  show ?thesis
  proof (cases r)
    case (Inl ot)
    with run vs fl have "ot = out" "d' = d" "tr2 = tr"
      by (auto simp add: read_unfold)
    with vs fl Inl show ?thesis by (intro that(2)) simp_all
  next
    case (Inr pr)
    then obtain lst ids where r: "r = Inr (lst, ids)" by (cases pr) simp
    note fl' = fl [unfolded r]
    show ?thesis
    proof (cases "SetInstanceList sv (tr2 @ [CallSetId (hash_of sv ids)]) lst")
      case (Some e)
      with run vs fl' have "out = Returned (Some e)"
        "d' = d\<lparr>resource_id := Some (hash_of sv ids)\<rparr>"
        "tr = tr2 @ [CallSetId (hash_of sv ids), CallSet lst]"
        by (auto simp add: read_unfold)
      with vs fl' Some show ?thesis by (rule that(3))
    next
      case None
      show ?thesis
      proof (cases "arg_result_output_file d = None \<or> arg_result_output_file d = Some []")
        case True
        with run vs fl' None have "out = Returned None"
          "d' = d\<lparr>resource_id := Some (hash_of sv ids), instance_list := Some lst\<rparr>"
          "tr = tr2 @ [CallSetId (hash_of sv ids), CallSet lst]"
          by (auto simp add: read_unfold)
        with vs fl' None True show ?thesis by (rule that(4))
      next
        case False
        then obtain p where p: "arg_result_output_file d = Some p" "p \<noteq> []" by auto
        with run vs fl' None
        have "out = Returned (writeToFile sv (tr2 @ [CallSetId (hash_of sv ids), CallSet lst]) p lst)"
          "d' = d\<lparr>resource_id := Some (hash_of sv ids), instance_list := Some lst\<rparr>"
          "tr = tr2 @ [CallSetId (hash_of sv ids), CallSet lst, CallWriteToFile p lst]"
          by (auto simp add: read_unfold)
        with vs fl' None p show ?thesis by (rule that(5))
      qed
    qed
  qed
qed

section \<open>The log of a run\<close>

lemma read_trace_listed:
  assumes run: "dataSourceTencentCloudSqlserverBasicInstanceRead sv d = (out, d', tr)"
  shows "listing_result sv tr = Some (listing_answer sv d)"
  using run
proof (cases rule: read_cases)
  case (loop_left vs)
  from flatten_loop_trace [OF loop_left(2)] show ?thesis by auto
next
  case (set_error vs lst ids tr2 e)
  from flatten_loop_trace [OF set_error(2)] set_error(6) show ?thesis by auto
next
  case (no_file vs lst ids tr2)
  from flatten_loop_trace [OF no_file(2)] no_file(7) show ?thesis by auto
next
  case (file_written vs lst ids tr2 p)
  from flatten_loop_trace [OF file_written(2)] file_written(8) show ?thesis by auto
qed simp

lemma sample_run:
  "dataSourceTencentCloudSqlserverBasicInstanceRead
     (sample_services (Inr sample_list) sample_tags None None)
     (sample_data (Some 7) (Some ''out.json'')) =
   (Returned None,
    (sample_data (Some 7) (Some ''out.json''))
      \<lparr>resource_id := Some ''mssql-amssql-b'', instance_list := Some sample_items\<rparr>,
    [CallDescribeSqlserverInstances [] 7 ''vpc-26w7r56z'' [] 1,
     CallDescribeResourceTags ''sqlserver'' ''instance'' ''ap-guangzhou'' ''mssql-a'',
     CallDescribeResourceTags ''sqlserver'' ''instance'' ''ap-guangzhou'' ''mssql-b'',
     CallSetId ''mssql-amssql-b'',
     CallSet sample_items,
     CallWriteToFile ''out.json'' sample_items])"
  by (simp add: dataSourceTencentCloudSqlserverBasicInstanceRead_def sample_services_def
      sample_data_def sample_list_def sample_instance_def sample_tags_def copy_fields_def
      GetOk_int_def GetOk_string_def Get_string_def sample_items_def sample_item_def Let_def)

lemma read_trace_shape:
  assumes run: "dataSourceTencentCloudSqlserverBasicInstanceRead sv d = (out, d', tr)"
  shows "\<exists>iids rest. tr = listing_call d # map (tag_call sv) iids @ rest \<and>
           (rest = [] \<or> (\<exists>h lst. rest = [CallSetId h, CallSet lst] \<or>
              (\<exists>p. rest = [CallSetId h, CallSet lst, CallWriteToFile p lst])))"
  using run
proof (cases rule: read_cases)
  case (listing_error e)
  then have "tr = listing_call d # map (tag_call sv) [] @ []" by simp
  then show ?thesis by blast
next
  case (loop_left vs)
  from flatten_loop_trace [OF loop_left(2)] obtain iids where
    "tr = listing_call d # map (tag_call sv) iids @ []" by auto
  then show ?thesis by blast
next
  case (set_error vs lst ids tr2 e)
  from flatten_loop_trace [OF set_error(2)] set_error(6) obtain iids where
    "tr = listing_call d # map (tag_call sv) iids @ [CallSetId (hash_of sv ids), CallSet lst]"
    by auto
  then show ?thesis by blast
next
  case (no_file vs lst ids tr2)
  from flatten_loop_trace [OF no_file(2)] no_file(7) obtain iids where
    "tr = listing_call d # map (tag_call sv) iids @ [CallSetId (hash_of sv ids), CallSet lst]"
    by auto
  then show ?thesis by blast
next
  case (file_written vs lst ids tr2 p)
  from flatten_loop_trace [OF file_written(2)] file_written(8) obtain iids where
    "tr = listing_call d # map (tag_call sv) iids @
       [CallSetId (hash_of sv ids), CallSet lst, CallWriteToFile p lst]"
    by auto
  then show ?thesis by blast
qed

lemma read_completed:
  assumes run: "dataSourceTencentCloudSqlserverBasicInstanceRead sv d = (out, d', tr)"
    and set: "CallSet lst \<in> set tr"
  obtains vs iids pms tgs rest where
    "listing_answer sv d = Inr vs"
    "length iids = length vs" "length pms = length vs" "length tgs = length vs"
    "map InstanceId vs = map Some iids" "map PayMode vs = map Some pms"
    "lst = map (\<lambda>(v, pm, tg). item_of sv v pm tg) (zip vs (zip pms tgs))"
    "\<forall>i<length vs. tag_answer sv (listing_call d # map (tag_call sv) (take i iids)) (iids ! i)
        = Inr (tgs ! i)"
    "tr = listing_call d # map (tag_call sv) iids @
            CallSetId (hash_of sv iids) # CallSet lst # rest"
    "rest = [] \<or> (\<exists>p. rest = [CallWriteToFile p lst])"
    "resource_id d' = Some (hash_of sv iids)"
proof -
  note outer = that
  have main: thesis
    if vs: "listing_answer sv d = Inr vs"
      and fl: "flatten_loop sv vs [] [] [listing_call d] = (Inr (lst0, ids), tr2)"
      and tr: "tr = tr2 @ CallSetId (hash_of sv ids) # CallSet lst0 # rest"
      and rest: "rest = [] \<or> (\<exists>p. rest = [CallWriteToFile p lst0])"
      and rid: "resource_id d' = Some (hash_of sv ids)"
    for vs lst0 ids tr2 rest
  proof -
    from flatten_loop_Inr [OF fl] obtain iids pms tgs where
      len: "length iids = length vs" "length pms = length vs" "length tgs = length vs" and
      m: "map InstanceId vs = map Some iids" "map PayMode vs = map Some pms" and
      ids: "ids = [] @ iids" and
      tr2: "tr2 = [listing_call d] @ map (tag_call sv) iids" and
      lst0: "lst0 = [] @ map (\<lambda>(v, pm, tg). item_of sv v pm tg) (zip vs (zip pms tgs))" and
      ans: "\<forall>i<length vs. tag_answer sv ([listing_call d] @ map (tag_call sv) (take i iids))
              (iids ! i) = Inr (tgs ! i)"
      by blast
    from set tr tr2 rest have eq: "lst = lst0" by auto
    show thesis
    proof (rule outer [of vs iids pms tgs rest])
      show "lst = map (\<lambda>(v, pm, tg). item_of sv v pm tg) (zip vs (zip pms tgs))"
        using eq lst0 by simp
      show "tr = listing_call d # map (tag_call sv) iids @
              CallSetId (hash_of sv iids) # CallSet lst # rest"
        using tr tr2 ids eq by simp
      show "rest = [] \<or> (\<exists>p. rest = [CallWriteToFile p lst])" using rest eq by simp
      show "resource_id d' = Some (hash_of sv iids)" using rid ids by simp
      show "\<forall>i<length vs. tag_answer sv (listing_call d # map (tag_call sv) (take i iids))
              (iids ! i) = Inr (tgs ! i)" using ans by simp
    qed (fact vs len m)+
  qed
  from run show thesis
  proof (cases rule: read_cases)
    case (listing_error e)
    with set show ?thesis by simp
  next
    case (loop_left vs)
    from flatten_loop_trace [OF loop_left(2)] set show ?thesis by auto
  next
    case (set_error vs lst0 ids tr2 e)
    show ?thesis
      by (rule main [OF set_error(1,2), of "[]"]) (simp_all add: set_error)
  next
    case (no_file vs lst0 ids tr2)
    show ?thesis
      by (rule main [OF no_file(1,2), of "[]"]) (simp_all add: no_file)
  next
    case (file_written vs lst0 ids tr2 p)
    show ?thesis
      by (rule main [OF file_written(1,2), of "[CallWriteToFile p lst0]"])
        (simp_all add: file_written)
  qed
qed

lemma read_tag_error:
  assumes run: "dataSourceTencentCloudSqlserverBasicInstanceRead sv d = (out, d', tr)"
    and k: "k < length tr"
    and ev: "tr ! k = CallDescribeResourceTags a b c i"
    and ans: "DescribeResourceTags sv (take k tr) a b c i = Inl e"
  shows "out = Returned (Some e) \<and> d' = d \<and> (\<exists>iids. tr = listing_call d # map (tag_call sv) iids)"
proof -
  have k0: "1 \<le> k" if "tr ! 0 = listing_call d"
    using that ev by (cases k) auto
  have inner: False
    if fl: "flatten_loop sv vs [] [] [listing_call d] = (Inr (lst, ids), tr2)"
      and tr: "tr = tr2 @ rest"
      and rest: "\<forall>j<length rest. \<forall>a b c i. rest ! j \<noteq> CallDescribeResourceTags a b c i"
    for vs lst ids tr2 rest
  proof -
    from flatten_loop_trace [OF fl] obtain iids where
      tr2: "tr2 = [listing_call d] @ map (tag_call sv) iids" by blast
    with tr have "tr ! 0 = listing_call d" by simp
    from k0 [OF this] have k1: "length [listing_call d] \<le> k" by simp
    show False
    proof (cases "k < length tr2")
      case True
      with tr have "tr2 ! k = tr ! k" "take k tr2 = take k tr" by (simp_all add: nth_append)
      with flatten_loop_answer_Inl [OF fl k1 True, of a b c i e] ev ans show False by simp
    next
      case False
      with tr k have "tr ! k = rest ! (k - length tr2)" "k - length tr2 < length rest"
        by (simp_all add: nth_append)
      with rest ev show False by metis
    qed
  qed
  from run show ?thesis
  proof (cases rule: read_cases)
    case (listing_error e')
    with k ev show ?thesis by simp
  next
    case (loop_left vs)
    from flatten_loop_trace [OF loop_left(2)] obtain iids where
      tr: "tr = [listing_call d] @ map (tag_call sv) iids" by blast
    then have "tr ! 0 = listing_call d" by simp
    from k0 [OF this] have "length [listing_call d] \<le> k" by simp
    from flatten_loop_answer_Inl [OF loop_left(2) this k ev ans] loop_left(3) tr
    show ?thesis by auto
  next
    case (set_error vs lst ids tr2 e')
    from inner [OF set_error(2), of "[CallSetId (hash_of sv ids), CallSet lst]"] set_error(6)
    show ?thesis by (auto simp: less_Suc_eq)
  next
    case (no_file vs lst ids tr2)
    from inner [OF no_file(2), of "[CallSetId (hash_of sv ids), CallSet lst]"] no_file(7)
    show ?thesis by (auto simp: less_Suc_eq)
  next
    case (file_written vs lst ids tr2 p)
    from inner [OF file_written(2),
        of "[CallSetId (hash_of sv ids), CallSet lst, CallWriteToFile p lst]"] file_written(8)
    show ?thesis by (auto simp: less_Suc_eq)
  qed
qed

lemma item_fields:
  "map_of (item_of sv v pm tg) ''id'' = Some (StringPtr (InstanceId v))"
  "map_of (item_of sv v pm tg) ''name'' = Some (StringPtr (Name v))"
  "map_of (item_of sv v pm tg) ''project_id'' = Some (Int64Ptr (ProjectId v))"
  "map_of (item_of sv v pm tg) ''storage'' = Some (Int64Ptr (Storage v))"
  "map_of (item_of sv v pm tg) ''memory'' = Some (Int64Ptr (Memory v))"
  "map_of (item_of sv v pm tg) ''availability_zone'' = Some (StringPtr (Zone v))"
  "map_of (item_of sv v pm tg) ''create_time'' = Some (StringPtr (CreateTime v))"
  "map_of (item_of sv v pm tg) ''vpc_id'' = Some (StringPtr (UniqVpcId v))"
  "map_of (item_of sv v pm tg) ''subnet_id'' = Some (StringPtr (UniqSubnetId v))"
  "map_of (item_of sv v pm tg) ''engine_version'' = Some (StringPtr (Version v))"
  "map_of (item_of sv v pm tg) ''vip'' = Some (StringPtr (Vip v))"
  "map_of (item_of sv v pm tg) ''vport'' = Some (Int64Ptr (Vport v))"
  "map_of (item_of sv v pm tg) ''used_storage'' = Some (Int64Ptr (UsedStorage v))"
  "map_of (item_of sv v pm tg) ''status'' = Some (Int64Ptr (Status v))"
  "map_of (item_of sv v pm tg) ''cpu'' = Some (Int64Ptr (Cpu v))"
  by (simp_all add: copy_fields_def update_conv')

lemma item_charge_type:
  "map_of (item_of sv v pm tg) ''charge_type'' =
     Some (StringVal (if pm = 1 then COMMON_PAYTYPE_PREPAID sv else COMMON_PAYTYPE_POSTPAID sv))"
  by (simp add: update_conv')

lemma item_tags: "map_of (item_of sv v pm tg) ''tags'' = Some (TagMap tg)"
  by (simp add: update_conv')

lemma read_completed_nth:
  assumes run: "dataSourceTencentCloudSqlserverBasicInstanceRead sv d = (out, d', tr)"
    and listed: "listing_result sv tr = Some (Inr vs)"
    and set: "CallSet lst \<in> set tr"
  shows "length lst = length vs \<and>
    (\<forall>i<length vs. \<exists>iid pm tg. InstanceId (vs ! i) = Some iid \<and> PayMode (vs ! i) = Some pm \<and>
        lst ! i = item_of sv (vs ! i) pm tg \<and>
        tr ! Suc i = tag_call sv iid \<and>
        tag_answer sv (take (Suc i) tr) iid = Inr tg)"
  using run set
proof (cases rule: read_completed)
  case (1 ws iids pms tgs rest)
  from read_trace_listed [OF run] listed 1(1) have ws: "ws = vs" by simp
  note c = 1 [unfolded ws]
  have len: "length lst = length vs" using c(2,3,4,7) by simp
  have nth: "\<exists>iid pm tg. InstanceId (vs ! i) = Some iid \<and> PayMode (vs ! i) = Some pm \<and>
        lst ! i = item_of sv (vs ! i) pm tg \<and>
        tr ! Suc i = tag_call sv iid \<and>
        tag_answer sv (take (Suc i) tr) iid = Inr tg" if i: "i < length vs" for i
  proof -
    from c(5) i have a: "InstanceId (vs ! i) = Some (iids ! i)"
      by (metis c(2) length_map nth_map)
    from c(6) i have b: "PayMode (vs ! i) = Some (pms ! i)"
      by (metis c(3) length_map nth_map)
    from c(7) i c(2,3,4) have e: "lst ! i = item_of sv (vs ! i) (pms ! i) (tgs ! i)" by simp
    from c(9) i c(2) have f: "tr ! Suc i = tag_call sv (iids ! i)"
      by (simp add: nth_append)
    from c(9) i c(2) have g: "take (Suc i) tr = listing_call d # map (tag_call sv) (take i iids)"
      by (simp add: take_map)
    from c(8) i g have h: "tag_answer sv (take (Suc i) tr) (iids ! i) = Inr (tgs ! i)" by simp
    from a b e f h show ?thesis by blast
  qed
  from len nth show ?thesis by blast
qed

lemma read_success_list:
  assumes run: "dataSourceTencentCloudSqlserverBasicInstanceRead sv d = (out, d', tr)"
    and ok: "out = Returned None"
    and set: "CallSet lst \<in> set tr"
  shows "instance_list d' = Some lst"
  using run
proof (cases rule: read_cases)
  case (listing_error e)
  with ok show ?thesis by simp
next
  case (loop_left vs)
  from flatten_loop_Inl [OF loop_left(2)] ok show ?thesis by simp
next
  case (set_error vs lst0 ids tr2 e)
  with ok show ?thesis by simp
next
  case (no_file vs lst0 ids tr2)
  from flatten_loop_trace [OF no_file(2)] no_file(7) set have "lst = lst0" by auto
  with no_file(6) show ?thesis by simp
next
  case (file_written vs lst0 ids tr2 p)
  from flatten_loop_trace [OF file_written(2)] file_written(8) set have "lst = lst0" by auto
  with file_written(7) show ?thesis by simp
qed

lemma nth_only_position:
  assumes tr: "tr = pre @ x # post"
    and pre: "\<forall>e \<in> set pre. \<not> P e" and post: "\<forall>e \<in> set post. \<not> P e"
    and k: "k < length tr" and p: "P (tr ! k)"
  shows "k = length pre"
proof (rule ccontr)
  assume neq: "k \<noteq> length pre"
  show False
  proof (cases "k < length pre")
    case True
    with tr have "tr ! k \<in> set pre" by (simp add: nth_append)
    with pre p show False by blast
  next
    case False
    with neq obtain j where j: "k = length pre + Suc j"
      by (metis add_Suc_right less_imp_Suc_add linorder_neqE_nat)
    with k tr have "tr ! k = post ! j" "j < length post" by (simp_all add: nth_append)
    then have "tr ! k \<in> set post" by simp
    with post p show False by blast
  qed
qed

lemma read_set_position:
  assumes tr: "tr = (listing_call d # map (tag_call sv) iids) @ [CallSetId h] @ CallSet lst0 # rest"
    and rest: "rest = [] \<or> (\<exists>p. rest = [CallWriteToFile p lst0])"
    and k: "k < length tr" and ev: "tr ! k = CallSet lst"
  shows "k = Suc (Suc (length iids)) \<and> lst = lst0"
proof -
  have "k = length ((listing_call d # map (tag_call sv) iids) @ [CallSetId h])"
  proof (rule nth_only_position [where P = "\<lambda>e. \<exists>l. e = CallSet l" and x = "CallSet lst0"
        and post = rest])
    show "tr = ((listing_call d # map (tag_call sv) iids) @ [CallSetId h]) @ CallSet lst0 # rest"
      using tr by simp
    show "\<forall>e\<in>set ((listing_call d # map (tag_call sv) iids) @ [CallSetId h]). \<nexists>l. e = CallSet l"
      by auto
    show "\<forall>e\<in>set rest. \<nexists>l. e = CallSet l" using rest by auto
    show "k < length tr" by fact
    show "\<exists>l. tr ! k = CallSet l" using ev by blast
  qed
  then have k': "k = Suc (Suc (length iids))" by simp
  with tr have "tr ! k = CallSet lst0" by (simp add: nth_append)
  with ev k' show ?thesis by simp
qed

lemma read_no_set:
  assumes tr: "tr = listing_call d # map (tag_call sv) iids"
    and k: "k < length tr" and ev: "tr ! k = CallSet lst"
  shows False
proof -
  from k have "tr ! k \<in> set tr" by simp
  with tr ev show False by auto
qed

lemma read_after_set:
  assumes run: "dataSourceTencentCloudSqlserverBasicInstanceRead sv d = (out, d', tr)"
    and k: "k < length tr" and ev: "tr ! k = CallSet lst"
    and ok: "SetInstanceList sv (take k tr) lst = None"
  shows "(\<exists>p. arg_result_output_file d = Some p \<and> p \<noteq> [] \<and>
            tr = take (Suc k) tr @ [CallWriteToFile p lst] \<and>
            out = Returned (writeToFile sv (take (Suc k) tr) p lst)) \<or>
         ((arg_result_output_file d = None \<or> arg_result_output_file d = Some []) \<and>
            tr = take (Suc k) tr \<and> out = Returned None)"
  using run
proof (cases rule: read_cases)
  case (listing_error e)
  with read_no_set [of tr d sv "[]" k lst] k ev show ?thesis by simp
next
  case (loop_left vs)
  from flatten_loop_trace [OF loop_left(2)] obtain iids where
    "tr = listing_call d # map (tag_call sv) iids" by auto
  from read_no_set [OF this k ev] show ?thesis ..
next
  case (set_error vs lst0 ids tr2 e)
  from flatten_loop_trace [OF set_error(2)] obtain iids where
    tr2: "tr2 = listing_call d # map (tag_call sv) iids" by auto
  with set_error(6) have tr: "tr = (listing_call d # map (tag_call sv) iids) @
      [CallSetId (hash_of sv ids)] @ CallSet lst0 # []" by simp
  from read_set_position [OF tr _ k ev] have kk: "k = Suc (Suc (length iids))" "lst = lst0"
    by simp_all
  with tr tr2 have "take k tr = tr2 @ [CallSetId (hash_of sv ids)]" by simp
  with ok kk set_error(3) show ?thesis by simp
next
  case (no_file vs lst0 ids tr2)
  from flatten_loop_trace [OF no_file(2)] obtain iids where
    tr2: "tr2 = listing_call d # map (tag_call sv) iids" by auto
  with no_file(7) have tr: "tr = (listing_call d # map (tag_call sv) iids) @
      [CallSetId (hash_of sv ids)] @ CallSet lst0 # []" by simp
  from read_set_position [OF tr _ k ev] have kk: "k = Suc (Suc (length iids))" "lst = lst0"
    by simp_all
  with tr have "take (Suc k) tr = tr" by simp
  with no_file(4,5) show ?thesis by simp
next
  case (file_written vs lst0 ids tr2 p)
  from flatten_loop_trace [OF file_written(2)] obtain iids where
    tr2: "tr2 = listing_call d # map (tag_call sv) iids" by auto
  with file_written(8) have tr: "tr = (listing_call d # map (tag_call sv) iids) @
      [CallSetId (hash_of sv ids)] @ CallSet lst0 # [CallWriteToFile p lst0]" by simp
  from read_set_position [OF tr _ k ev] have kk: "k = Suc (Suc (length iids))" "lst = lst0"
    by simp_all
  with tr tr2 have tk: "take (Suc k) tr = tr2 @ [CallSetId (hash_of sv ids), CallSet lst0]"
    by simp
  with file_written(4,5,6,8) kk show ?thesis by simp
qed

lemma read_file_written:
  assumes run: "dataSourceTencentCloudSqlserverBasicInstanceRead sv d = (out, d', tr)"
    and w: "CallWriteToFile p l \<in> set tr"
  shows "arg_result_output_file d = Some p \<and> p \<noteq> []"
  using run
proof (cases rule: read_cases)
  case (listing_error e)
  with w show ?thesis by simp
next
  case (loop_left vs)
  from flatten_loop_trace [OF loop_left(2)] w show ?thesis by auto
next
  case (set_error vs lst ids tr2 e)
  from flatten_loop_trace [OF set_error(2)] set_error(6) w show ?thesis by auto
next
  case (no_file vs lst ids tr2)
  from flatten_loop_trace [OF no_file(2)] no_file(7) w show ?thesis by auto
next
  case (file_written vs lst ids tr2 q)
  from flatten_loop_trace [OF file_written(2)] file_written(4,5,8) w show ?thesis by auto
qed

section \<open>Sample runs\<close>

lemma listing_error_run:
  "dataSourceTencentCloudSqlserverBasicInstanceRead
     (sample_services (Inl (GoError ''listing api down'')) sample_tags None None)
     (sample_data (Some 7) (Some ''out.json'')) =
   (Returned (Some (GoError ''listing api down'')),
    sample_data (Some 7) (Some ''out.json''),
    [CallDescribeSqlserverInstances [] 7 ''vpc-26w7r56z'' [] 1])"
  by (simp add: dataSourceTencentCloudSqlserverBasicInstanceRead_def sample_services_def
      sample_data_def GetOk_int_def GetOk_string_def Get_string_def Let_def)

lemma tag_error_run:
  "dataSourceTencentCloudSqlserverBasicInstanceRead
     (sample_services (Inr sample_list) failing_tags None None)
     (sample_data (Some 7) (Some ''out.json'')) =
   (Returned (Some (GoError ''tag api down'')),
    sample_data (Some 7) (Some ''out.json''),
    [CallDescribeSqlserverInstances [] 7 ''vpc-26w7r56z'' [] 1,
     CallDescribeResourceTags ''sqlserver'' ''instance'' ''ap-guangzhou'' ''mssql-a'',
     CallDescribeResourceTags ''sqlserver'' ''instance'' ''ap-guangzhou'' ''mssql-b''])"
  by (simp add: dataSourceTencentCloudSqlserverBasicInstanceRead_def sample_services_def
      sample_data_def sample_list_def sample_instance_def failing_tags_def copy_fields_def
      GetOk_int_def GetOk_string_def Get_string_def Let_def)

lemma project_zero_run:
  "dataSourceTencentCloudSqlserverBasicInstanceRead
     (sample_services (Inr []) sample_tags None None)
     (sample_data (Some 0) None) =
   (Returned None,
    (sample_data (Some 0) None)\<lparr>resource_id := Some [], instance_list := Some []\<rparr>,
    [CallDescribeSqlserverInstances [] (- 1) ''vpc-26w7r56z'' [] 1,
     CallSetId [], CallSet []])"
  by (simp add: dataSourceTencentCloudSqlserverBasicInstanceRead_def sample_services_def
      sample_data_def GetOk_int_def GetOk_string_def Get_string_def Let_def)

lemma swapped_run:
  "dataSourceTencentCloudSqlserverBasicInstanceRead
     (sample_services
        (Inr [sample_instance ''mssql-a'' (Some 0), sample_instance ''mssql-b'' (Some 1)])
        (\<lambda>iid. Inr []) None None)
     (sample_data None None) =
   (Returned None,
    (sample_data None None)
      \<lparr>resource_id := Some ''mssql-amssql-b'',
       instance_list := Some [sample_item ''mssql-a'' ''POSTPAID_BY_HOUR'' [],
                              sample_item ''mssql-b'' ''PREPAID'' []]\<rparr>,
    [CallDescribeSqlserverInstances [] (- 1) ''vpc-26w7r56z'' [] 1,
     CallDescribeResourceTags ''sqlserver'' ''instance'' ''ap-guangzhou'' ''mssql-a'',
     CallDescribeResourceTags ''sqlserver'' ''instance'' ''ap-guangzhou'' ''mssql-b'',
     CallSetId ''mssql-amssql-b'',
     CallSet [sample_item ''mssql-a'' ''POSTPAID_BY_HOUR'' [],
              sample_item ''mssql-b'' ''PREPAID'' []]])"
  by (simp add: dataSourceTencentCloudSqlserverBasicInstanceRead_def sample_services_def
      sample_data_def sample_instance_def copy_fields_def
      GetOk_int_def GetOk_string_def Get_string_def sample_item_def Let_def)

lemma sample_listed:
  "listing_result (sample_services (Inr sample_list) sample_tags None None)
      [CallDescribeSqlserverInstances [] 7 ''vpc-26w7r56z'' [] 1,
       CallDescribeResourceTags ''sqlserver'' ''instance'' ''ap-guangzhou'' ''mssql-a'',
       CallDescribeResourceTags ''sqlserver'' ''instance'' ''ap-guangzhou'' ''mssql-b'',
       CallSetId ''mssql-amssql-b'',
       CallSet sample_items,
       CallWriteToFile ''out.json'' sample_items] = Some (Inr sample_list)"
  by (simp add: sample_services_def)

lemma sample_set:
  "CallSet sample_items \<in> set
      [CallDescribeSqlserverInstances [] 7 ''vpc-26w7r56z'' [] 1,
       CallDescribeResourceTags ''sqlserver'' ''instance'' ''ap-guangzhou'' ''mssql-a'',
       CallDescribeResourceTags ''sqlserver'' ''instance'' ''ap-guangzhou'' ''mssql-b'',
       CallSetId ''mssql-amssql-b'',
       CallSet sample_items,
       CallWriteToFile ''out.json'' sample_items]"
  by simp

section \<open>The flattened list\<close>

text \<open>
  Claim C1. The list the handler hands to \<^verbatim>\<open>d.Set("instance_list", list)\<close> has
  exactly one element per instance the listing service returned, in the same order, and
  the fifteen copied fields of each element are the corresponding pointers of that
  instance. When the handler returns \<^verbatim>\<open>nil\<close>, that list is the attribute
  \<^verbatim>\<open>instance_list\<close> of the resource data. The handler does get to that
  \<^verbatim>\<open>d.Set\<close> whenever no listed instance has a nil pay mode or ID and the tag service
  answers every call without an error.
\<close>

theorem instance_list_fields:
  assumes run: "dataSourceTencentCloudSqlserverBasicInstanceRead sv d = (out, d', tr)"
    and listed: "listing_result sv tr = Some (Inr vs)"
  shows "(\<forall>lst. CallSet lst \<in> set tr \<longrightarrow>
      length lst = length vs \<and>
      (\<forall>i<length vs.
         map_of (lst ! i) ''id'' = Some (StringPtr (InstanceId (vs ! i))) \<and>
         map_of (lst ! i) ''name'' = Some (StringPtr (Name (vs ! i))) \<and>
         map_of (lst ! i) ''project_id'' = Some (Int64Ptr (ProjectId (vs ! i))) \<and>
         map_of (lst ! i) ''storage'' = Some (Int64Ptr (Storage (vs ! i))) \<and>
         map_of (lst ! i) ''memory'' = Some (Int64Ptr (Memory (vs ! i))) \<and>
         map_of (lst ! i) ''availability_zone'' = Some (StringPtr (Zone (vs ! i))) \<and>
         map_of (lst ! i) ''create_time'' = Some (StringPtr (CreateTime (vs ! i))) \<and>
         map_of (lst ! i) ''vpc_id'' = Some (StringPtr (UniqVpcId (vs ! i))) \<and>
         map_of (lst ! i) ''subnet_id'' = Some (StringPtr (UniqSubnetId (vs ! i))) \<and>
         map_of (lst ! i) ''engine_version'' = Some (StringPtr (Version (vs ! i))) \<and>
         map_of (lst ! i) ''vip'' = Some (StringPtr (Vip (vs ! i))) \<and>
         map_of (lst ! i) ''vport'' = Some (Int64Ptr (Vport (vs ! i))) \<and>
         map_of (lst ! i) ''used_storage'' = Some (Int64Ptr (UsedStorage (vs ! i))) \<and>
         map_of (lst ! i) ''status'' = Some (Int64Ptr (Status (vs ! i))) \<and>
         map_of (lst ! i) ''cpu'' = Some (Int64Ptr (Cpu (vs ! i)))) \<and>
      (out = Returned None \<longrightarrow> instance_list d' = Some lst)) \<and>
    ((\<forall>v \<in> set vs. PayMode v \<noteq> None \<and> InstanceId v \<noteq> None) \<and>
     (\<forall>h iid. \<exists>tg. DescribeResourceTags sv h ''sqlserver'' ''instance'' (Region sv) iid = Inr tg)
       \<longrightarrow> (\<exists>lst. CallSet lst \<in> set tr))"
proof (rule conjI)
  show "(\<forall>v \<in> set vs. PayMode v \<noteq> None \<and> InstanceId v \<noteq> None) \<and>
     (\<forall>h iid. \<exists>tg. DescribeResourceTags sv h ''sqlserver'' ''instance'' (Region sv) iid = Inr tg)
       \<longrightarrow> (\<exists>lst. CallSet lst \<in> set tr)"
  proof
    assume ok: "(\<forall>v \<in> set vs. PayMode v \<noteq> None \<and> InstanceId v \<noteq> None) \<and>
      (\<forall>h iid. \<exists>tg. DescribeResourceTags sv h ''sqlserver'' ''instance'' (Region sv) iid = Inr tg)"
    from read_trace_listed [OF run] listed have vs: "listing_answer sv d = Inr vs" by simp
    from ok flatten_loop_total [of vs sv "[]" "[]" "[listing_call d]"]
    obtain lst0 ids0 tr0 where
      fl: "flatten_loop sv vs [] [] [listing_call d] = (Inr (lst0, ids0), tr0)" by blast
    from run show "\<exists>lst. CallSet lst \<in> set tr"
    proof (cases rule: read_cases)
      case (listing_error e)
      with vs show ?thesis by simp
    next
      case (loop_left ws)
      with vs fl show ?thesis by simp
    next
      case (set_error ws lst ids tr2 e)
      then have "CallSet lst \<in> set tr" by simp
      then show ?thesis ..
    next
      case (no_file ws lst ids tr2)
      then have "CallSet lst \<in> set tr" by simp
      then show ?thesis ..
    next
      case (file_written ws lst ids tr2 p)
      then have "CallSet lst \<in> set tr" by simp
      then show ?thesis ..
    qed
  qed
next
  show "\<forall>lst. CallSet lst \<in> set tr \<longrightarrow>
      length lst = length vs \<and>
      (\<forall>i<length vs.
         map_of (lst ! i) ''id'' = Some (StringPtr (InstanceId (vs ! i))) \<and>
         map_of (lst ! i) ''name'' = Some (StringPtr (Name (vs ! i))) \<and>
         map_of (lst ! i) ''project_id'' = Some (Int64Ptr (ProjectId (vs ! i))) \<and>
         map_of (lst ! i) ''storage'' = Some (Int64Ptr (Storage (vs ! i))) \<and>
         map_of (lst ! i) ''memory'' = Some (Int64Ptr (Memory (vs ! i))) \<and>
         map_of (lst ! i) ''availability_zone'' = Some (StringPtr (Zone (vs ! i))) \<and>
         map_of (lst ! i) ''create_time'' = Some (StringPtr (CreateTime (vs ! i))) \<and>
         map_of (lst ! i) ''vpc_id'' = Some (StringPtr (UniqVpcId (vs ! i))) \<and>
         map_of (lst ! i) ''subnet_id'' = Some (StringPtr (UniqSubnetId (vs ! i))) \<and>
         map_of (lst ! i) ''engine_version'' = Some (StringPtr (Version (vs ! i))) \<and>
         map_of (lst ! i) ''vip'' = Some (StringPtr (Vip (vs ! i))) \<and>
         map_of (lst ! i) ''vport'' = Some (Int64Ptr (Vport (vs ! i))) \<and>
         map_of (lst ! i) ''used_storage'' = Some (Int64Ptr (UsedStorage (vs ! i))) \<and>
         map_of (lst ! i) ''status'' = Some (Int64Ptr (Status (vs ! i))) \<and>
         map_of (lst ! i) ''cpu'' = Some (Int64Ptr (Cpu (vs ! i)))) \<and>
      (out = Returned None \<longrightarrow> instance_list d' = Some lst)"
  proof (intro allI impI conjI)
    fix lst assume set: "CallSet lst \<in> set tr"
    note nth = read_completed_nth [OF run listed set]
    from nth show "length lst = length vs" by simp
    show "instance_list d' = Some lst" if "out = Returned None"
      using read_success_list [OF run that set] .
    fix i assume i: "i < length vs"
    with nth obtain pm tg where item: "lst ! i = item_of sv (vs ! i) pm tg" by blast
    show "map_of (lst ! i) ''id'' = Some (StringPtr (InstanceId (vs ! i)))"
      unfolding item by (rule item_fields)
    show "map_of (lst ! i) ''name'' = Some (StringPtr (Name (vs ! i)))"
      unfolding item by (rule item_fields)
    show "map_of (lst ! i) ''project_id'' = Some (Int64Ptr (ProjectId (vs ! i)))"
      unfolding item by (rule item_fields)
    show "map_of (lst ! i) ''storage'' = Some (Int64Ptr (Storage (vs ! i)))"
      unfolding item by (rule item_fields)
    show "map_of (lst ! i) ''memory'' = Some (Int64Ptr (Memory (vs ! i)))"
      unfolding item by (rule item_fields)
    show "map_of (lst ! i) ''availability_zone'' = Some (StringPtr (Zone (vs ! i)))"
      unfolding item by (rule item_fields)
    show "map_of (lst ! i) ''create_time'' = Some (StringPtr (CreateTime (vs ! i)))"
      unfolding item by (rule item_fields)
    show "map_of (lst ! i) ''vpc_id'' = Some (StringPtr (UniqVpcId (vs ! i)))"
      unfolding item by (rule item_fields)
    show "map_of (lst ! i) ''subnet_id'' = Some (StringPtr (UniqSubnetId (vs ! i)))"
      unfolding item by (rule item_fields)
    show "map_of (lst ! i) ''engine_version'' = Some (StringPtr (Version (vs ! i)))"
      unfolding item by (rule item_fields)
    show "map_of (lst ! i) ''vip'' = Some (StringPtr (Vip (vs ! i)))"
      unfolding item by (rule item_fields)
    show "map_of (lst ! i) ''vport'' = Some (Int64Ptr (Vport (vs ! i)))"
      unfolding item by (rule item_fields)
    show "map_of (lst ! i) ''used_storage'' = Some (Int64Ptr (UsedStorage (vs ! i)))"
      unfolding item by (rule item_fields)
    show "map_of (lst ! i) ''status'' = Some (Int64Ptr (Status (vs ! i)))"
      unfolding item by (rule item_fields)
    show "map_of (lst ! i) ''cpu'' = Some (Int64Ptr (Cpu (vs ! i)))"
      unfolding item by (rule item_fields)
  qed
qed

theorem instance_list_fields_witness:
  "length sample_items = length sample_list \<and>
   map_of (sample_items ! 0) ''id'' = Some (StringPtr (InstanceId (sample_list ! 0))) \<and>
   map_of (sample_items ! 1) ''id'' = Some (StringPtr (InstanceId (sample_list ! 1))) \<and>
   map_of (sample_items ! 1) ''vport'' = Some (Int64Ptr (Vport (sample_list ! 1))) \<and>
   map_of (sample_items ! 1) ''id'' = Some (StringPtr (Some ''mssql-b'')) \<and>
   instance_list (fst (snd (dataSourceTencentCloudSqlserverBasicInstanceRead
      (sample_services (Inr sample_list) sample_tags None None)
      (sample_data (Some 7) (Some ''out.json''))))) = Some sample_items"
proof -
  note t = instance_list_fields [OF sample_run sample_listed, THEN conjunct1, rule_format,
      OF sample_set]
  from t have len: "length sample_items = length sample_list" by (rule conjunct1)
  from t have "\<forall>i<length sample_list.
       map_of (sample_items ! i) ''id'' = Some (StringPtr (InstanceId (sample_list ! i))) \<and>
       map_of (sample_items ! i) ''vport'' = Some (Int64Ptr (Vport (sample_list ! i)))"
    by blast
  moreover have "0 < length sample_list" "1 < length sample_list"
    by (simp_all add: sample_list_def)
  ultimately have f: "map_of (sample_items ! 0) ''id'' = Some (StringPtr (InstanceId (sample_list ! 0)))"
    "map_of (sample_items ! 1) ''id'' = Some (StringPtr (InstanceId (sample_list ! 1)))"
    "map_of (sample_items ! 1) ''vport'' = Some (Int64Ptr (Vport (sample_list ! 1)))"
    by blast+
  have g: "InstanceId (sample_list ! 1) = Some ''mssql-b''"
    by (simp add: sample_list_def sample_instance_def)
  from t have "instance_list ((sample_data (Some 7) (Some ''out.json''))
      \<lparr>resource_id := Some ''mssql-amssql-b'', instance_list := Some sample_items\<rparr>)
        = Some sample_items" by blast
  with len f g show ?thesis by (simp add: sample_run)
qed

text \<open>
  Claim C9. In the list handed to \<^verbatim>\<open>d.Set\<close>, the \<^verbatim>\<open>charge_type\<close> of the element of
  an instance is the prepaid constant when the instance's pay mode is 1 and the postpaid
  constant otherwise; with two different constants, it is the prepaid one exactly when the
  pay mode is 1.
\<close>

theorem charge_type_from_pay_mode:
  assumes run: "dataSourceTencentCloudSqlserverBasicInstanceRead sv d = (out, d', tr)"
    and listed: "listing_result sv tr = Some (Inr vs)"
    and set: "CallSet lst \<in> set tr"
  shows "(\<forall>i<length vs. map_of (lst ! i) ''charge_type'' =
            Some (StringVal (if PayMode (vs ! i) = Some 1 then COMMON_PAYTYPE_PREPAID sv
                             else COMMON_PAYTYPE_POSTPAID sv))) \<and>
         (COMMON_PAYTYPE_PREPAID sv \<noteq> COMMON_PAYTYPE_POSTPAID sv \<longrightarrow>
            (\<forall>i<length vs. (map_of (lst ! i) ''charge_type'' =
                             Some (StringVal (COMMON_PAYTYPE_PREPAID sv))) =
                           (PayMode (vs ! i) = Some 1)))"
proof -
  note nth = read_completed_nth [OF run listed set]
  have a: "map_of (lst ! i) ''charge_type'' =
            Some (StringVal (if PayMode (vs ! i) = Some 1 then COMMON_PAYTYPE_PREPAID sv
                             else COMMON_PAYTYPE_POSTPAID sv))" if "i < length vs" for i
  proof -
    from nth that obtain pm tg where pm: "PayMode (vs ! i) = Some pm"
      and item: "lst ! i = item_of sv (vs ! i) pm tg" by blast
    show ?thesis unfolding item item_charge_type pm by simp
  qed
  then show ?thesis by auto
qed

theorem charge_type_from_pay_mode_witness:
  "map_of (sample_items ! 0) ''charge_type'' = Some (StringVal ''PREPAID'') \<and>
   PayMode (sample_list ! 0) = Some 1 \<and>
   map_of (sample_items ! 1) ''charge_type'' = Some (StringVal ''POSTPAID_BY_HOUR'') \<and>
   PayMode (sample_list ! 1) = Some 0"
proof -
  note t = charge_type_from_pay_mode [OF sample_run sample_listed sample_set, THEN conjunct1,
      rule_format]
  have i: "0 < length sample_list" "1 < length sample_list" by (simp_all add: sample_list_def)
  have pm: "PayMode (sample_list ! 0) = Some 1" "PayMode (sample_list ! 1) = Some 0"
    by (simp_all add: sample_list_def sample_instance_def)
  from t [OF i(1)] t [OF i(2)] pm show ?thesis by (simp add: sample_services_def)
qed

section \<open>Tags\<close>

text \<open>
  Claim C2. In a run that completes the loop, the tag calls in the log are exactly one per
  listed instance, in order, each with service type \<^verbatim>\<open>sqlserver\<close>, resource prefix
  \<^verbatim>\<open>instance\<close>, the client's region and that instance's ID; the tag map the call for
  the \<open>i\<close>-th instance returned is the \<^verbatim>\<open>tags\<close> field of the \<open>i\<close>-th element. In any
  run, a tag call that answers with an error makes the handler return that error.
\<close>

theorem tags_fetched_per_instance:
  assumes run: "dataSourceTencentCloudSqlserverBasicInstanceRead sv d = (out, d', tr)"
    and listed: "listing_result sv tr = Some (Inr vs)"
  shows "(\<forall>lst. CallSet lst \<in> set tr \<longrightarrow>
           (\<exists>iids. map InstanceId vs = map Some iids \<and>
              filter is_tag_call tr =
                map (CallDescribeResourceTags ''sqlserver'' ''instance'' (Region sv)) iids) \<and>
           (\<forall>i<length vs. \<exists>iid tg. InstanceId (vs ! i) = Some iid \<and>
              tr ! Suc i = CallDescribeResourceTags ''sqlserver'' ''instance'' (Region sv) iid \<and>
              DescribeResourceTags sv (take (Suc i) tr) ''sqlserver'' ''instance'' (Region sv) iid
                = Inr tg \<and>
              map_of (lst ! i) ''tags'' = Some (TagMap tg))) \<and>
         (\<forall>k<length tr. \<forall>a b c i e.
            tr ! k = CallDescribeResourceTags a b c i \<and>
            DescribeResourceTags sv (take k tr) a b c i = Inl e \<longrightarrow>
            out = Returned (Some e))"
proof (intro conjI allI impI)
  fix lst assume set: "CallSet lst \<in> set tr"
  from run set show "\<exists>iids. map InstanceId vs = map Some iids \<and>
      filter is_tag_call tr =
        map (CallDescribeResourceTags ''sqlserver'' ''instance'' (Region sv)) iids"
  proof (cases rule: read_completed)
    case (1 ws iids pms tgs rest)
    from read_trace_listed [OF run] listed 1(1) have ws: "ws = vs" by simp
    have "filter is_tag_call (map (tag_call sv) iids) = map (tag_call sv) iids"
      by (induction iids) simp_all
    with 1(9,10) have "filter is_tag_call tr = map (tag_call sv) iids" by auto
    with 1(5) ws show ?thesis by blast
  qed
  note nth = read_completed_nth [OF run listed set]
  fix i assume "i < length vs"
  with nth obtain iid pm tg where
    "InstanceId (vs ! i) = Some iid" "lst ! i = item_of sv (vs ! i) pm tg"
    "tr ! Suc i = tag_call sv iid" "tag_answer sv (take (Suc i) tr) iid = Inr tg"
    by blast
  then show "\<exists>iid tg. InstanceId (vs ! i) = Some iid \<and>
      tr ! Suc i = CallDescribeResourceTags ''sqlserver'' ''instance'' (Region sv) iid \<and>
      DescribeResourceTags sv (take (Suc i) tr) ''sqlserver'' ''instance'' (Region sv) iid
        = Inr tg \<and>
      map_of (lst ! i) ''tags'' = Some (TagMap tg)"
    using item_tags by metis
next
  fix k a b c i e
  assume "k < length tr" and
    "tr ! k = CallDescribeResourceTags a b c i \<and>
     DescribeResourceTags sv (take k tr) a b c i = Inl e"
  with read_tag_error [OF run, of k a b c i e] show "out = Returned (Some e)" by simp
qed

theorem tags_fetched_per_instance_witness:
  "map_of (sample_items ! 0) ''tags'' = Some (TagMap [(''test'', ''test'')]) \<and>
   DescribeResourceTags (sample_services (Inr sample_list) sample_tags None None)
     [CallDescribeSqlserverInstances [] 7 ''vpc-26w7r56z'' [] 1]
     ''sqlserver'' ''instance'' ''ap-guangzhou'' ''mssql-a'' = Inr [(''test'', ''test'')] \<and>
   fst (dataSourceTencentCloudSqlserverBasicInstanceRead
          (sample_services (Inr sample_list) failing_tags None None)
          (sample_data (Some 7) (Some ''out.json''))) = Returned (Some (GoError ''tag api down''))"
proof -
  have i: "0 < length sample_list" by (simp add: sample_list_def)
  from tags_fetched_per_instance [OF sample_run sample_listed, THEN conjunct1, rule_format,
      OF sample_set, THEN conjunct2, rule_format, OF i]
  obtain iid tg where a: "InstanceId (sample_list ! 0) = Some iid"
    "DescribeResourceTags (sample_services (Inr sample_list) sample_tags None None)
      (take (Suc 0) [CallDescribeSqlserverInstances [] 7 ''vpc-26w7r56z'' [] 1,
       CallDescribeResourceTags ''sqlserver'' ''instance'' ''ap-guangzhou'' ''mssql-a'',
       CallDescribeResourceTags ''sqlserver'' ''instance'' ''ap-guangzhou'' ''mssql-b'',
       CallSetId ''mssql-amssql-b'',
       CallSet sample_items,
       CallWriteToFile ''out.json'' sample_items]) ''sqlserver'' ''instance''
      (Region (sample_services (Inr sample_list) sample_tags None None)) iid = Inr tg"
    "map_of (sample_items ! 0) ''tags'' = Some (TagMap tg)"
    by blast
  from a(1) have iid: "iid = ''mssql-a''" by (simp add: sample_list_def sample_instance_def)
  from a(2) iid have tg: "tg = [(''test'', ''test'')]"
    by (simp add: sample_services_def sample_tags_def)
  have listed: "listing_result (sample_services (Inr sample_list) failing_tags None None)
      [CallDescribeSqlserverInstances [] 7 ''vpc-26w7r56z'' [] 1,
       CallDescribeResourceTags ''sqlserver'' ''instance'' ''ap-guangzhou'' ''mssql-a'',
       CallDescribeResourceTags ''sqlserver'' ''instance'' ''ap-guangzhou'' ''mssql-b'']
      = Some (Inr sample_list)"
    by (simp add: sample_services_def)
  have "Returned (Some (GoError ''tag api down'')) = Returned (Some (GoError ''tag api down''))"
    by (rule tags_fetched_per_instance [OF tag_error_run listed, THEN conjunct2, rule_format,
          of 2 "''sqlserver''" "''instance''" "''ap-guangzhou''" "''mssql-b''"])
      (simp_all add: sample_services_def failing_tags_def)
  moreover have "fst (dataSourceTencentCloudSqlserverBasicInstanceRead
          (sample_services (Inr sample_list) failing_tags None None)
          (sample_data (Some 7) (Some ''out.json''))) = Returned (Some (GoError ''tag api down''))"
    by (simp add: tag_error_run)
  moreover have "DescribeResourceTags (sample_services (Inr sample_list) sample_tags None None)
     [CallDescribeSqlserverInstances [] 7 ''vpc-26w7r56z'' [] 1]
     ''sqlserver'' ''instance'' ''ap-guangzhou'' ''mssql-a'' = Inr [(''test'', ''test'')]"
    by (simp add: sample_services_def sample_tags_def)
  ultimately show ?thesis using a(3) tg by simp
qed

section \<open>The resource ID\<close>

text \<open>
  Claim C3. Two runs, with any collaborators, any configuration and any tags, whose listing
  calls return instances with the same instance IDs in the same order, and which both set a
  resource ID, set the same one: the ID is the hash helper applied to the sequence of
  instance IDs, and the hash helper is the same pure function in both runs.
\<close>

theorem resource_id_from_instance_ids:
  assumes run1: "dataSourceTencentCloudSqlserverBasicInstanceRead sv1 d1 = (out1, d1', tr1)"
    and run2: "dataSourceTencentCloudSqlserverBasicInstanceRead sv2 d2 = (out2, d2', tr2)"
    and same_hash: "DataResourceIdsHash sv1 = DataResourceIdsHash sv2"
    and listed1: "listing_result sv1 tr1 = Some (Inr vs1)"
    and listed2: "listing_result sv2 tr2 = Some (Inr vs2)"
    and same_ids: "map InstanceId vs1 = map InstanceId vs2"
    and set1: "CallSetId s1 \<in> set tr1"
    and set2: "CallSetId s2 \<in> set tr2"
  shows "s1 = s2 \<and> resource_id d1' = Some s1 \<and> resource_id d2' = Some s2 \<and>
         (\<exists>iids. map InstanceId vs1 = map Some iids \<and> s1 = DataResourceIdsHash sv1 iids)"
proof -
  have one: "\<exists>iids. map InstanceId vs = map Some iids \<and> s = DataResourceIdsHash sv iids \<and>
      resource_id d' = Some s"
    if run: "dataSourceTencentCloudSqlserverBasicInstanceRead sv d = (out, d', tr)"
      and listed: "listing_result sv tr = Some (Inr vs)"
      and set: "CallSetId s \<in> set tr"
    for sv d out d' tr vs s
  proof -
    from read_trace_shape [OF run] set have "\<exists>lst. CallSet lst \<in> set tr" by fastforce
    then obtain lst where "CallSet lst \<in> set tr" ..
    with run show ?thesis
    proof (cases rule: read_completed)
      case (1 ws iids pms tgs rest)
      from read_trace_listed [OF run] listed 1(1) have ws: "ws = vs" by simp
      from 1(9,10) set have "s = DataResourceIdsHash sv iids" by auto
      with 1(5,11) ws show ?thesis by blast
    qed
  qed
  from one [OF run1 listed1 set1] obtain iids1 where
    a: "map InstanceId vs1 = map Some iids1" "s1 = DataResourceIdsHash sv1 iids1"
       "resource_id d1' = Some s1" by blast
  from one [OF run2 listed2 set2] obtain iids2 where
    b: "map InstanceId vs2 = map Some iids2" "s2 = DataResourceIdsHash sv2 iids2"
       "resource_id d2' = Some s2" by blast
  from a(1) b(1) same_ids have "map Some iids1 = map Some iids2" by simp
  then have "iids1 = iids2" by (simp add: inj_map_eq_map)
  with a b same_hash show ?thesis by auto
qed

theorem resource_id_from_instance_ids_witness:
  "resource_id (fst (snd (dataSourceTencentCloudSqlserverBasicInstanceRead
      (sample_services (Inr sample_list) sample_tags None None)
      (sample_data (Some 7) (Some ''out.json''))))) =
   resource_id (fst (snd (dataSourceTencentCloudSqlserverBasicInstanceRead
      (sample_services
         (Inr [sample_instance ''mssql-a'' (Some 0), sample_instance ''mssql-b'' (Some 1)])
         (\<lambda>iid. Inr []) None None)
      (sample_data None None)))) \<and>
   resource_id (fst (snd (dataSourceTencentCloudSqlserverBasicInstanceRead
      (sample_services (Inr sample_list) sample_tags None None)
      (sample_data (Some 7) (Some ''out.json''))))) = Some ''mssql-amssql-b''"
proof -
  have listed2: "listing_result (sample_services
         (Inr [sample_instance ''mssql-a'' (Some 0), sample_instance ''mssql-b'' (Some 1)])
         (\<lambda>iid. Inr []) None None)
     [CallDescribeSqlserverInstances [] (- 1) ''vpc-26w7r56z'' [] 1,
      CallDescribeResourceTags ''sqlserver'' ''instance'' ''ap-guangzhou'' ''mssql-a'',
      CallDescribeResourceTags ''sqlserver'' ''instance'' ''ap-guangzhou'' ''mssql-b'',
      CallSetId ''mssql-amssql-b'',
      CallSet [sample_item ''mssql-a'' ''POSTPAID_BY_HOUR'' [],
               sample_item ''mssql-b'' ''PREPAID'' []]]
     = Some (Inr [sample_instance ''mssql-a'' (Some 0), sample_instance ''mssql-b'' (Some 1)])"
    by (simp add: sample_services_def)
  have same_hash: "DataResourceIdsHash (sample_services (Inr sample_list) sample_tags None None) =
     DataResourceIdsHash (sample_services
         (Inr [sample_instance ''mssql-a'' (Some 0), sample_instance ''mssql-b'' (Some 1)])
         (\<lambda>iid. Inr []) None None)"
    by (simp add: sample_services_def)
  have same_ids: "map InstanceId sample_list =
     map InstanceId [sample_instance ''mssql-a'' (Some 0), sample_instance ''mssql-b'' (Some 1)]"
    by (simp add: sample_list_def sample_instance_def)
  from resource_id_from_instance_ids [OF sample_run swapped_run same_hash sample_listed listed2
      same_ids, of "''mssql-amssql-b''" "''mssql-amssql-b''"]
  show ?thesis by (simp add: sample_run swapped_run)
qed

section \<open>The listing call\<close>

text \<open>
  Claim C4, amended. The first event of every run is the listing call, and its filters are:
  the \<^verbatim>\<open>id\<close> argument, or the empty string when it is not configured; the
  \<^verbatim>\<open>vpc_id\<close> and \<^verbatim>\<open>subnet_id\<close> arguments, or the empty string when not configured;
  and the \<^verbatim>\<open>project_id\<close> argument when it is configured with a value other than 0,
  and \<open>-1\<close> when it is not configured or configured as 0. The claim as written also
  promises that a configured \<^verbatim>\<open>project_id = 0\<close> is passed on; \<^verbatim>\<open>d.GetOk\<close> reports
  a zero value as not set, so the handler passes \<open>-1\<close> there, as the run below shows.
\<close>

theorem listing_filters:
  assumes run: "dataSourceTencentCloudSqlserverBasicInstanceRead sv d = (out, d', tr)"
  shows "\<exists>rest. tr =
     CallDescribeSqlserverInstances
       (case arg_id d of None \<Rightarrow> [] | Some s \<Rightarrow> s)
       (case arg_project_id d of None \<Rightarrow> - 1 | Some n \<Rightarrow> if n = 0 then - 1 else n)
       (case arg_vpc_id d of None \<Rightarrow> [] | Some s \<Rightarrow> s)
       (case arg_subnet_id d of None \<Rightarrow> [] | Some s \<Rightarrow> s)
       1 # rest"
  using read_trace_shape [OF run] by auto

theorem listing_filters_witness:
  "hd (snd (snd (dataSourceTencentCloudSqlserverBasicInstanceRead
      (sample_services (Inr sample_list) sample_tags None None)
      (sample_data (Some 7) (Some ''out.json''))))) =
   CallDescribeSqlserverInstances [] 7 ''vpc-26w7r56z'' [] 1"
proof -
  from listing_filters [OF sample_run] obtain rest where
    "snd (snd (dataSourceTencentCloudSqlserverBasicInstanceRead
      (sample_services (Inr sample_list) sample_tags None None)
      (sample_data (Some 7) (Some ''out.json'')))) =
     CallDescribeSqlserverInstances
       (case arg_id (sample_data (Some 7) (Some ''out.json'')) of None \<Rightarrow> [] | Some s \<Rightarrow> s)
       (case arg_project_id (sample_data (Some 7) (Some ''out.json'')) of
          None \<Rightarrow> - 1 | Some n \<Rightarrow> if n = 0 then - 1 else n)
       (case arg_vpc_id (sample_data (Some 7) (Some ''out.json'')) of None \<Rightarrow> [] | Some s \<Rightarrow> s)
       (case arg_subnet_id (sample_data (Some 7) (Some ''out.json'')) of None \<Rightarrow> [] | Some s \<Rightarrow> s)
       1 # rest"
    by (auto simp: sample_run)
  then show ?thesis by (simp add: sample_data_def)
qed

theorem listing_filters_counterexample:
  "arg_project_id (sample_data (Some 0) None) = Some 0 \<and>
   hd (snd (snd (dataSourceTencentCloudSqlserverBasicInstanceRead
      (sample_services (Inr []) sample_tags None None) (sample_data (Some 0) None)))) =
     CallDescribeSqlserverInstances [] (- 1) ''vpc-26w7r56z'' [] 1 \<and>
   hd (snd (snd (dataSourceTencentCloudSqlserverBasicInstanceRead
      (sample_services (Inr []) sample_tags None None) (sample_data (Some 0) None)))) \<noteq>
     CallDescribeSqlserverInstances [] 0 ''vpc-26w7r56z'' [] 1"
  by (simp add: project_zero_run) (simp add: sample_data_def)

text \<open>
  Claim C6. Every run calls the listing service, and every listing call of a run has
  instance type 1, whatever the configuration.
\<close>

theorem listing_instance_type_basic:
  assumes run: "dataSourceTencentCloudSqlserverBasicInstanceRead sv d = (out, d', tr)"
  shows "(\<exists>i p v s. CallDescribeSqlserverInstances i p v s 1 \<in> set tr) \<and>
         (\<forall>i p v s t. CallDescribeSqlserverInstances i p v s t \<in> set tr \<longrightarrow> t = 1)"
proof -
  from read_trace_shape [OF run] obtain iids rest where
    tr: "tr = listing_call d # map (tag_call sv) iids @ rest" and
    rest: "rest = [] \<or> (\<exists>h lst. rest = [CallSetId h, CallSet lst] \<or>
              (\<exists>p. rest = [CallSetId h, CallSet lst, CallWriteToFile p lst]))"
    by blast
  from tr have "listing_call d \<in> set tr" by simp
  then have a: "\<exists>i p v s. CallDescribeSqlserverInstances i p v s 1 \<in> set tr" by blast
  from tr rest have "\<forall>i p v s t. CallDescribeSqlserverInstances i p v s t \<in> set tr \<longrightarrow> t = 1"
    by auto
  with a show ?thesis by blast
qed

theorem listing_instance_type_basic_witness:
  "CallDescribeSqlserverInstances [] 7 ''vpc-26w7r56z'' [] 1 \<in> set (snd (snd
     (dataSourceTencentCloudSqlserverBasicInstanceRead
        (sample_services (Inr sample_list) sample_tags None None)
        (sample_data (Some 7) (Some ''out.json'')))))"
  using listing_instance_type_basic [OF sample_run] by (simp add: sample_run)

text \<open>
  Claim C7. The log of every run starts with the listing call and has no other listing
  call. When that call answers with an error, the handler returns that error, the log
  holds nothing but the listing call, and the resource data is untouched.
\<close>

theorem listing_called_once_no_retry:
  assumes run: "dataSourceTencentCloudSqlserverBasicInstanceRead sv d = (out, d', tr)"
  shows "(\<exists>i p v s t rest. tr = CallDescribeSqlserverInstances i p v s t # rest \<and>
            (\<forall>i' p' v' s' t'. CallDescribeSqlserverInstances i' p' v' s' t' \<notin> set rest)) \<and>
         (\<forall>e. listing_result sv tr = Some (Inl e) \<longrightarrow>
            out = Returned (Some e) \<and> length tr = 1 \<and> d' = d)"
proof (rule conjI)
  from read_trace_shape [OF run] obtain iids rest where
    tr: "tr = listing_call d # map (tag_call sv) iids @ rest" and
    rest: "rest = [] \<or> (\<exists>h lst. rest = [CallSetId h, CallSet lst] \<or>
              (\<exists>p. rest = [CallSetId h, CallSet lst, CallWriteToFile p lst]))"
    by blast
  from rest have "\<forall>i' p' v' s' t'. CallDescribeSqlserverInstances i' p' v' s' t'
      \<notin> set (map (tag_call sv) iids @ rest)" by auto
  with tr show "\<exists>i p v s t rest. tr = CallDescribeSqlserverInstances i p v s t # rest \<and>
            (\<forall>i' p' v' s' t'. CallDescribeSqlserverInstances i' p' v' s' t' \<notin> set rest)"
    by blast
next
  show "\<forall>e. listing_result sv tr = Some (Inl e) \<longrightarrow>
            out = Returned (Some e) \<and> length tr = 1 \<and> d' = d"
  proof (intro allI impI)
    fix e assume "listing_result sv tr = Some (Inl e)"
    with read_trace_listed [OF run] have e: "listing_answer sv d = Inl e" by simp
    from run show "out = Returned (Some e) \<and> length tr = 1 \<and> d' = d"
      by (cases rule: read_cases) (use e in simp_all)
  qed
qed

theorem listing_called_once_no_retry_witness:
  "fst (dataSourceTencentCloudSqlserverBasicInstanceRead
     (sample_services (Inl (GoError ''listing api down'')) sample_tags None None)
     (sample_data (Some 7) (Some ''out.json''))) = Returned (Some (GoError ''listing api down'')) \<and>
   length (snd (snd (dataSourceTencentCloudSqlserverBasicInstanceRead
     (sample_services (Inl (GoError ''listing api down'')) sample_tags None None)
     (sample_data (Some 7) (Some ''out.json''))))) = 1"
proof -
  have "listing_result (sample_services (Inl (GoError ''listing api down'')) sample_tags None None)
      [CallDescribeSqlserverInstances [] 7 ''vpc-26w7r56z'' [] 1]
      = Some (Inl (GoError ''listing api down''))"
    by (simp add: sample_services_def)
  from listing_called_once_no_retry [OF listing_error_run, THEN conjunct2, rule_format, OF this]
  show ?thesis by (simp add: listing_error_run)
qed

section \<open>Errors leave the state alone\<close>

text \<open>
  Claim C8. When the listing call or any tag call of a run answered with an error, the
  resource data after the run is the resource data before it, no \<^verbatim>\<open>SetId\<close>, no
  \<^verbatim>\<open>Set\<close> and no file write is in the log, and the handler returned an error.
\<close>

theorem state_unchanged_on_service_error:
  assumes run: "dataSourceTencentCloudSqlserverBasicInstanceRead sv d = (out, d', tr)"
    and failed: "(\<exists>e. listing_result sv tr = Some (Inl e)) \<or>
       (\<exists>k<length tr. \<exists>a b c i e. tr ! k = CallDescribeResourceTags a b c i \<and>
          DescribeResourceTags sv (take k tr) a b c i = Inl e)"
  shows "d' = d \<and> (\<forall>s. CallSetId s \<notin> set tr) \<and> (\<forall>l. CallSet l \<notin> set tr) \<and>
         (\<forall>p l. CallWriteToFile p l \<notin> set tr) \<and> (\<exists>e. out = Returned (Some e))"
  using failed
proof
  assume "\<exists>e. listing_result sv tr = Some (Inl e)"
  then obtain e where "listing_result sv tr = Some (Inl e)" by blast
  with read_trace_listed [OF run] have e: "listing_answer sv d = Inl e" by simp
  from run show ?thesis
    by (cases rule: read_cases) (use e in simp_all)
next
  assume "\<exists>k<length tr. \<exists>a b c i e. tr ! k = CallDescribeResourceTags a b c i \<and>
          DescribeResourceTags sv (take k tr) a b c i = Inl e"
  then obtain k a b c i e where "k < length tr" "tr ! k = CallDescribeResourceTags a b c i"
    "DescribeResourceTags sv (take k tr) a b c i = Inl e" by blast
  from read_tag_error [OF run this] show ?thesis by auto
qed

theorem state_unchanged_on_service_error_witness:
  "fst (snd (dataSourceTencentCloudSqlserverBasicInstanceRead
     (sample_services (Inr sample_list) failing_tags None None)
     (sample_data (Some 7) (Some ''out.json'')))) = sample_data (Some 7) (Some ''out.json'') \<and>
   CallSetId ''mssql-amssql-b'' \<notin> set (snd (snd (dataSourceTencentCloudSqlserverBasicInstanceRead
     (sample_services (Inr sample_list) failing_tags None None)
     (sample_data (Some 7) (Some ''out.json'')))))"
proof -
  have "(\<exists>e. listing_result (sample_services (Inr sample_list) failing_tags None None)
      [CallDescribeSqlserverInstances [] 7 ''vpc-26w7r56z'' [] 1,
       CallDescribeResourceTags ''sqlserver'' ''instance'' ''ap-guangzhou'' ''mssql-a'',
       CallDescribeResourceTags ''sqlserver'' ''instance'' ''ap-guangzhou'' ''mssql-b'']
        = Some (Inl e)) \<or>
    (\<exists>k<length [CallDescribeSqlserverInstances [] 7 ''vpc-26w7r56z'' [] 1,
       CallDescribeResourceTags ''sqlserver'' ''instance'' ''ap-guangzhou'' ''mssql-a'',
       CallDescribeResourceTags ''sqlserver'' ''instance'' ''ap-guangzhou'' ''mssql-b''].
      \<exists>a b c i e. [CallDescribeSqlserverInstances [] 7 ''vpc-26w7r56z'' [] 1,
       CallDescribeResourceTags ''sqlserver'' ''instance'' ''ap-guangzhou'' ''mssql-a'',
       CallDescribeResourceTags ''sqlserver'' ''instance'' ''ap-guangzhou'' ''mssql-b''] ! k
         = CallDescribeResourceTags a b c i \<and>
       DescribeResourceTags (sample_services (Inr sample_list) failing_tags None None)
         (take k [CallDescribeSqlserverInstances [] 7 ''vpc-26w7r56z'' [] 1,
       CallDescribeResourceTags ''sqlserver'' ''instance'' ''ap-guangzhou'' ''mssql-a'',
       CallDescribeResourceTags ''sqlserver'' ''instance'' ''ap-guangzhou'' ''mssql-b''])
         a b c i = Inl e)"
    by (rule disjI2, rule exI [of _ 2]) (simp add: sample_services_def failing_tags_def)
  from state_unchanged_on_service_error [OF tag_error_run this]
  show ?thesis by (simp add: tag_error_run)
qed

section \<open>The output file\<close>

text \<open>
  Claim C5. A file is written only if \<^verbatim>\<open>result_output_file\<close> is configured and not
  empty, and the path is the configured one. Once \<^verbatim>\<open>d.Set\<close> has succeeded on the
  flattened list: if the argument is configured and not empty, the one remaining effect is
  \<^verbatim>\<open>writeToFile\<close> with that path and that list, and the handler returns what the writer
  returns; otherwise nothing follows the \<^verbatim>\<open>d.Set\<close> and the handler returns
  \<^verbatim>\<open>nil\<close>.
\<close>

theorem output_file_written_iff_configured:
  assumes run: "dataSourceTencentCloudSqlserverBasicInstanceRead sv d = (out, d', tr)"
  shows "(\<forall>p l. CallWriteToFile p l \<in> set tr \<longrightarrow>
            arg_result_output_file d = Some p \<and> p \<noteq> []) \<and>
         (\<forall>k<length tr. \<forall>lst. tr ! k = CallSet lst \<and> SetInstanceList sv (take k tr) lst = None \<longrightarrow>
            (\<forall>p. arg_result_output_file d = Some p \<and> p \<noteq> [] \<longrightarrow>
               tr = take (Suc k) tr @ [CallWriteToFile p lst] \<and>
               out = Returned (writeToFile sv (take (Suc k) tr) p lst)) \<and>
            (arg_result_output_file d = None \<or> arg_result_output_file d = Some [] \<longrightarrow>
               tr = take (Suc k) tr \<and> out = Returned None))"
proof (rule conjI)
  show "\<forall>p l. CallWriteToFile p l \<in> set tr \<longrightarrow> arg_result_output_file d = Some p \<and> p \<noteq> []"
    using read_file_written [OF run] by blast
next
  show "\<forall>k<length tr. \<forall>lst. tr ! k = CallSet lst \<and> SetInstanceList sv (take k tr) lst = None \<longrightarrow>
            (\<forall>p. arg_result_output_file d = Some p \<and> p \<noteq> [] \<longrightarrow>
               tr = take (Suc k) tr @ [CallWriteToFile p lst] \<and>
               out = Returned (writeToFile sv (take (Suc k) tr) p lst)) \<and>
            (arg_result_output_file d = None \<or> arg_result_output_file d = Some [] \<longrightarrow>
               tr = take (Suc k) tr \<and> out = Returned None)"
  proof (intro allI impI)
    fix k lst
    assume k: "k < length tr"
      and "tr ! k = CallSet lst \<and> SetInstanceList sv (take k tr) lst = None"
    then have ev: "tr ! k = CallSet lst" and ok: "SetInstanceList sv (take k tr) lst = None"
      by simp_all
    from read_after_set [OF run k ev ok]
    show "(\<forall>p. arg_result_output_file d = Some p \<and> p \<noteq> [] \<longrightarrow>
               tr = take (Suc k) tr @ [CallWriteToFile p lst] \<and>
               out = Returned (writeToFile sv (take (Suc k) tr) p lst)) \<and>
            (arg_result_output_file d = None \<or> arg_result_output_file d = Some [] \<longrightarrow>
               tr = take (Suc k) tr \<and> out = Returned None)"
      by auto
  qed
qed

theorem output_file_written_iff_configured_witness:
  "snd (snd (dataSourceTencentCloudSqlserverBasicInstanceRead
      (sample_services (Inr sample_list) sample_tags None None)
      (sample_data (Some 7) (Some ''out.json'')))) =
     [CallDescribeSqlserverInstances [] 7 ''vpc-26w7r56z'' [] 1,
      CallDescribeResourceTags ''sqlserver'' ''instance'' ''ap-guangzhou'' ''mssql-a'',
      CallDescribeResourceTags ''sqlserver'' ''instance'' ''ap-guangzhou'' ''mssql-b'',
      CallSetId ''mssql-amssql-b'',
      CallSet sample_items] @ [CallWriteToFile ''out.json'' sample_items] \<and>
   arg_result_output_file (sample_data (Some 7) (Some ''out.json'')) = Some ''out.json'' \<and>
   fst (dataSourceTencentCloudSqlserverBasicInstanceRead
      (sample_services (Inr sample_list) sample_tags None None)
      (sample_data (Some 7) (Some ''out.json''))) =
     Returned (writeToFile (sample_services (Inr sample_list) sample_tags None None)
       [CallDescribeSqlserverInstances [] 7 ''vpc-26w7r56z'' [] 1,
        CallDescribeResourceTags ''sqlserver'' ''instance'' ''ap-guangzhou'' ''mssql-a'',
        CallDescribeResourceTags ''sqlserver'' ''instance'' ''ap-guangzhou'' ''mssql-b'',
        CallSetId ''mssql-amssql-b'',
        CallSet sample_items] ''out.json'' sample_items)"
proof -
  have arg: "arg_result_output_file (sample_data (Some 7) (Some ''out.json'')) = Some ''out.json''"
    by (simp add: sample_data_def)
  from output_file_written_iff_configured [OF sample_run, THEN conjunct2, rule_format,
      of 4 sample_items, THEN conjunct1, rule_format, of "''out.json''"] arg
  show ?thesis by (simp add: sample_run) (simp add: sample_services_def)
qed

section \<open>Nil pointers\<close>

text \<open>
  Claim C10. The loop reads \<^verbatim>\<open>*v.PayMode\<close> and \<^verbatim>\<open>*v.InstanceId\<close> with no nil check:
  an instance at the head of the list with one of them \<^verbatim>\<open>nil\<close> makes the loop panic.
  When every instance the listing service returned has both pointers set, the loop never
  panics, whatever it has accumulated, and neither does the handler.
\<close>

theorem no_nil_dereference:
  assumes run: "dataSourceTencentCloudSqlserverBasicInstanceRead sv d = (out, d', tr)"
    and listed: "listing_result sv tr = Some (Inr vs)"
    and nonnil: "\<forall>v \<in> set vs. PayMode v \<noteq> None \<and> InstanceId v \<noteq> None"
  shows "out \<noteq> Panicked \<and> (\<forall>lst ids h. fst (flatten_loop sv vs lst ids h) \<noteq> Inl Panicked) \<and>
         (\<forall>(w::DBInstance) ws lst ids h. PayMode w = None \<or> InstanceId w = None \<longrightarrow>
            fst (flatten_loop sv (w # ws) lst ids h) = Inl Panicked)"
proof (intro conjI allI impI)
  from read_trace_listed [OF run] listed have vs: "listing_answer sv d = Inr vs" by simp
  from run show "out \<noteq> Panicked"
  proof (cases rule: read_cases)
    case (loop_left ws)
    with vs have "flatten_loop sv vs [] [] [listing_call d] = (Inl out, tr)" by simp
    with flatten_loop_Panicked [of sv vs "[]" "[]" "[listing_call d]" tr] nonnil
    show ?thesis by auto
  qed simp_all
next
  fix lst ids h
  show "fst (flatten_loop sv vs lst ids h) \<noteq> Inl Panicked"
  proof
    assume p: "fst (flatten_loop sv vs lst ids h) = Inl Panicked"
    obtain r h' where fl: "flatten_loop sv vs lst ids h = (r, h')"
      by (cases "flatten_loop sv vs lst ids h")
    with p have "flatten_loop sv vs lst ids h = (Inl Panicked, h')" by simp
    from flatten_loop_Panicked [OF this] nonnil show False by blast
  qed
next
  fix w :: DBInstance and ws lst ids h
  assume "PayMode w = None \<or> InstanceId w = None"
  then show "fst (flatten_loop sv (w # ws) lst ids h) = Inl Panicked"
    by (auto simp: Let_def split: option.splits)
qed

theorem no_nil_dereference_witness:
  "fst (dataSourceTencentCloudSqlserverBasicInstanceRead
          (sample_services (Inr sample_list) sample_tags None None)
          (sample_data (Some 7) (Some ''out.json''))) \<noteq> Panicked \<and>
   fst (flatten_loop (sample_services (Inr sample_list) sample_tags None None) sample_list [] [] [])
     \<noteq> Inl Panicked \<and>
   fst (flatten_loop (sample_services (Inr sample_list) sample_tags None None)
          [sample_instance ''mssql-c'' None] [] [] []) = Inl Panicked"
proof -
  have listed: "listing_result (sample_services (Inr sample_list) sample_tags None None)
      [CallDescribeSqlserverInstances [] 7 ''vpc-26w7r56z'' [] 1,
       CallDescribeResourceTags ''sqlserver'' ''instance'' ''ap-guangzhou'' ''mssql-a'',
       CallDescribeResourceTags ''sqlserver'' ''instance'' ''ap-guangzhou'' ''mssql-b'',
       CallSetId ''mssql-amssql-b'',
       CallSet sample_items,
       CallWriteToFile ''out.json'' sample_items] = Some (Inr sample_list)"
    by (simp add: sample_services_def)
  have nonnil: "\<forall>v \<in> set sample_list. PayMode v \<noteq> None \<and> InstanceId v \<noteq> None"
    by (simp add: sample_list_def sample_instance_def)
  have nil: "PayMode (sample_instance ''mssql-c'' None) = None"
    by (simp add: sample_instance_def)
  from no_nil_dereference [OF sample_run listed nonnil] nil show ?thesis
    by (simp add: sample_run)
qed

end
